theory Spec2Isabelle
  imports Complex_Main
begin

unbundle bit_operations_syntax

section \<open>Data model\<close>

text \<open>
  The toolkit works on raw coordinates. Pixel coordinates coming from the mouse are
  Python ints; clipping, scaling and reflection produce Python floats. Both are embedded
  as exact reals: the model describes the arithmetic the code writes down, without the
  rounding error of IEEE doubles. Python's built-in \<open>round\<close> (ties go to the even
  integer) is written out, and every division is checked, so that the
  \<open>ZeroDivisionError\<close> Python raises on a zero denominator is a value of the model.
  Where the rounding of doubles decides a property, for the returned endpoints of the
  two clipping functions, these functions are embedded a second time with every
  operation rounded (sections \<open>Double-precision arithmetic\<close> and
  \<open>clipping.py in double arithmetic\<close>).
\<close>

type_synonym point = "real \<times> real"
type_synonym line = "point \<times> point"
type_synonym circle = "point \<times> real"

datatype error = ZeroDivisionError | TypeError

definition py_div :: "real \<Rightarrow> real \<Rightarrow> error + real" where
  "py_div a b = (if b = 0 then Inl ZeroDivisionError else Inr (a / b))"

definition py_round :: "real \<Rightarrow> int" where
  "py_round x =
     (let f = \<lfloor>x\<rfloor>; d = x - of_int f
      in if d < 1 / 2 then f
         else if 1 / 2 < d then f + 1
         else if even f then f else f + 1)"

section \<open>clipping.py\<close>

subsection \<open>Region codes\<close>

definition INSIDE :: int where "INSIDE = 0"
definition LEFT :: int where "LEFT = 1"
definition RIGHT :: int where "RIGHT = 2"
definition BOTTOM :: int where "BOTTOM = 4"
definition TOP :: int where "TOP = 8"

definition region_code :: "real \<Rightarrow> real \<Rightarrow> real \<Rightarrow> real \<Rightarrow> real \<Rightarrow> real \<Rightarrow> int" where
  "region_code x y x_min x_max y_min y_max =
     (let code = INSIDE;
          code = (if x < x_min then code OR LEFT
                  else if x > x_max then code OR RIGHT
                  else code);
          code = (if y < y_min then code OR BOTTOM
                  else if y > y_max then code OR TOP
                  else code)
      in code)"

subsection \<open>Cohen-Sutherland\<close>

text \<open>
  The local variables of \<open>clipping_cohen_sutherland\<close> that the loop reads and writes.
  The window bounds are fixed during the loop and passed separately as
  \<open>(x_min, x_max, y_min, y_max)\<close>.
\<close>

record cs_state =
  x_initial :: real
  y_initial :: real
  x_final :: real
  y_final :: real
  code1 :: int
  code2 :: int
  line_accepted :: bool

type_synonym window = "real \<times> real \<times> real \<times> real"

text \<open>
  The intersection point computed in the \<open>else\<close> branch of the loop (source lines 43-62).
  \<open>x, y = 0, 0\<close> is what remains when no bit of \<open>code_out\<close> matches.
\<close>

definition cs_intersection :: "window \<Rightarrow> cs_state \<Rightarrow> int \<Rightarrow> error + point" where
  "cs_intersection w st code_out =
     (case w of (x_min, x_max, y_min, y_max) \<Rightarrow>
      if (code_out AND TOP) \<noteq> 0 then
        (case py_div ((x_final st - x_initial st) * (y_max - y_initial st))
                     (y_final st - y_initial st) of
           Inl e \<Rightarrow> Inl e
         | Inr q \<Rightarrow> Inr (x_initial st + q, y_max))
      else if (code_out AND BOTTOM) \<noteq> 0 then
        (case py_div ((x_final st - x_initial st) * (y_min - y_initial st))
                     (y_final st - y_initial st) of
           Inl e \<Rightarrow> Inl e
         | Inr q \<Rightarrow> Inr (x_initial st + q, y_min))
      else if (code_out AND RIGHT) \<noteq> 0 then
        (case py_div ((y_final st - y_initial st) * (x_max - x_initial st))
                     (x_final st - x_initial st) of
           Inl e \<Rightarrow> Inl e
         | Inr q \<Rightarrow> Inr (x_max, y_initial st + q))
      else if (code_out AND LEFT) \<noteq> 0 then
        (case py_div ((y_final st - y_initial st) * (x_min - x_initial st))
                     (x_final st - x_initial st) of
           Inl e \<Rightarrow> Inl e
         | Inr q \<Rightarrow> Inr (x_min, y_initial st + q))
      else Inr (0, 0))"

definition in_window :: "window \<Rightarrow> real \<Rightarrow> real \<Rightarrow> bool" where
  "in_window w x y =
     (case w of (x_min, x_max, y_min, y_max) \<Rightarrow>
        x_min \<le> x \<and> x \<le> x_max \<and> y_min \<le> y \<and> y \<le> y_max)"

text \<open>One pass through the \<open>else\<close> branch of the loop body (source lines 42-77).\<close>

definition cs_clip :: "window \<Rightarrow> cs_state \<Rightarrow> error + cs_state" where
  "cs_clip w st =
     (case w of (x_min, x_max, y_min, y_max) \<Rightarrow>
      let code_out = (if code1 st \<noteq> 0 then code1 st else code2 st)
      in (case cs_intersection w st code_out of
            Inl e \<Rightarrow> Inl e
          | Inr (x, y) \<Rightarrow>
              (let st' = (if code_out = code1 st
                          then st\<lparr>x_initial := x, y_initial := y,
                                  code1 := region_code x y x_min x_max y_min y_max\<rparr>
                          else st\<lparr>x_final := x, y_final := y,
                                  code2 := region_code x y x_min x_max y_min y_max\<rparr>)
               in Inr (if in_window w (x_initial st') (y_initial st')
                          \<or> in_window w (x_final st') (y_final st')
                       then st'\<lparr>line_accepted := True\<rparr> else st'))))"

text \<open>
  The \<open>while True\<close> loop (source lines 34-77). It returns the value of \<open>accept\<close> at the
  \<open>break\<close> together with the state. Nothing in the text of the loop bounds the number of
  passes, so the loop is a partial function: \<open>None\<close> stands for not returning.
  The second test repeats the source's \<open>elif\<close>, which the first test shadows.
\<close>

partial_function (option) cs_loop :: "window \<Rightarrow> cs_state \<Rightarrow> (error + bool \<times> cs_state) option" where
  "cs_loop w st =
     (if (code1 st = 0 \<and> code2 st = 0) \<or> (code1 st AND code2 st) \<noteq> 0 then
        Some (Inr (True, st))
      else if (code1 st AND code2 st) \<noteq> 0 then
        Some (Inr (False, st))
      else
        (case cs_clip w st of
           Inl e \<Rightarrow> Some (Inl e)
         | Inr st' \<Rightarrow> cs_loop w st'))"

text \<open>
  The result of a clip call: the accept flag and the clipped segment, \<open>None\<close> for the
  \<open>(None, None)\<close> payload of a rejection. The \<open>print\<close> calls and the red overlay segment
  drawn on acceptance do not influence the returned value and are left out.
\<close>

type_synonym clip_result = "bool \<times> line option"

definition clipping_cohen_sutherland ::
  "real \<Rightarrow> real \<Rightarrow> real \<Rightarrow> real \<Rightarrow> point \<Rightarrow> point \<Rightarrow> (error + clip_result) option" where
  "clipping_cohen_sutherland x_initial0 y_initial0 x_final0 y_final0 c_initial c_final =
     (let (x_min, y_min) = c_initial;
          (x_max, y_max) = c_final;
          st0 = \<lparr>x_initial = x_initial0, y_initial = y_initial0,
                 x_final = x_final0, y_final = y_final0,
                 code1 = region_code x_initial0 y_initial0 x_min x_max y_min y_max,
                 code2 = region_code x_final0 y_final0 x_min x_max y_min y_max,
                 line_accepted = False\<rparr>
      in (case cs_loop (x_min, x_max, y_min, y_max) st0 of
            None \<Rightarrow> None
          | Some (Inl e) \<Rightarrow> Some (Inl e)
          | Some (Inr (accept, st)) \<Rightarrow>
              if accept \<and> line_accepted st
              then Some (Inr (True, Some ((x_initial st, y_initial st), (x_final st, y_final st))))
              else Some (Inr (False, None))))"

subsection \<open>Liang-Barsky\<close>

text \<open>
  \<open>negarr\<close> and \<open>posarr\<close> are Python lists that always hold their first element (0 and 1),
  so \<open>max\<close> and \<open>min\<close> over them never fail. The divisions are guarded in the source by
  \<open>p1 != 0\<close> and \<open>p3 != 0\<close> (with \<open>p2 = -p1\<close>, \<open>p4 = -p3\<close>); they are checked all the same.
\<close>

definition lb_axis ::
  "real \<Rightarrow> real \<Rightarrow> real \<Rightarrow> real \<Rightarrow> real list \<times> real list \<Rightarrow> error + real list \<times> real list" where
  "lb_axis pa pb qa qb arrs =
     (case arrs of (negarr, posarr) \<Rightarrow>
      if pa \<noteq> 0 then
        (case py_div qa pa of
           Inl e \<Rightarrow> Inl e
         | Inr ra \<Rightarrow>
            (case py_div qb pb of
               Inl e \<Rightarrow> Inl e
             | Inr rb \<Rightarrow>
                 if pa < 0 then Inr (negarr @ [ra], posarr @ [rb])
                 else Inr (negarr @ [rb], posarr @ [ra])))
      else Inr (negarr, posarr))"

text \<open>Python's \<open>max\<close> and \<open>min\<close> over a non-empty list.\<close>

definition py_max :: "real list \<Rightarrow> real" where
  "py_max xs = fold max (tl xs) (hd xs)"

definition py_min :: "real list \<Rightarrow> real" where
  "py_min xs = fold min (tl xs) (hd xs)"

definition clipping_liang_barsky ::
  "real \<Rightarrow> real \<Rightarrow> real \<Rightarrow> real \<Rightarrow> real \<Rightarrow> real \<Rightarrow> real \<Rightarrow> real \<Rightarrow> error + clip_result" where
  "clipping_liang_barsky x1 y1 x2 y2 xmin ymin xmax ymax =
     (let p1 = - (x2 - x1); p2 = - p1; p3 = - (y2 - y1); p4 = - p3;
          q1 = x1 - xmin; q2 = xmax - x1; q3 = y1 - ymin; q4 = ymax - y1;
          posarr = [1]; negarr = [0]
      in if (p1 = 0 \<and> q1 < 0) \<or> (p2 = 0 \<and> q2 < 0) \<or> (p3 = 0 \<and> q3 < 0) \<or> (p4 = 0 \<and> q4 < 0)
         then Inr (False, None)
         else
           (case lb_axis p1 p2 q1 q2 (negarr, posarr) of
              Inl e \<Rightarrow> Inl e
            | Inr arrs \<Rightarrow>
               (case lb_axis p3 p4 q3 q4 arrs of
                  Inl e \<Rightarrow> Inl e
                | Inr (negarr, posarr) \<Rightarrow>
                    (let rn1 = py_max negarr; rn2 = py_min posarr
                     in if rn1 > rn2 then Inr (False, None)
                        else
                          (let xn1 = x1 + p2 * rn1; yn1 = y1 + p4 * rn1;
                               xn2 = x1 + p2 * rn2; yn2 = y1 + p4 * rn2
                           in Inr (True, Some ((xn1, yn1), (xn2, yn2))))))))"

section \<open>The canvas\<close>

text \<open>
  \<open>CartesianPlane\<close> (main.py) is the Tk canvas extended with the scene: the stored
  \<open>lines\<close> and \<open>circles\<close>, the \<open>origin\<close> (unset until the first resize event or the first
  coordinate conversion) and the size Tk reports through \<open>winfo_width\<close> and
  \<open>winfo_height\<close>. What has been drawn is kept as the list \<open>items\<close>, in drawing order:
  one \<open>Pixel\<close> per \<open>draw_pixel\<close> call and one \<open>AxisLine\<close> per segment of \<open>draw_axes\<close>.
  The tool-mode flags and \<open>edges\<close> belong to the click handler and are left out.
\<close>

type_synonym color = "nat \<times> nat \<times> nat"

datatype item = Pixel real real color | AxisLine real real real real

record plane =
  origin :: "point option"
  width :: real
  height :: real
  items :: "item list"
  lines :: "line list"
  circles :: "circle list"

definition draw_pixel :: "plane \<Rightarrow> real \<Rightarrow> real \<Rightarrow> color \<Rightarrow> plane" where
  "draw_pixel cp x y color = cp\<lparr>items := items cp @ [Pixel x y color]\<rparr>"

definition delete_all :: "plane \<Rightarrow> plane" where
  "delete_all cp = cp\<lparr>items := []\<rparr>"

fun is_axis :: "item \<Rightarrow> bool" where
  "is_axis (AxisLine _ _ _ _) = True"
| "is_axis (Pixel _ _ _) = False"

text \<open>\<open>draw_axes\<close> subscripts \<open>self.origin\<close>; on an unset origin Python raises \<open>TypeError\<close>.\<close>

definition draw_axes :: "plane \<Rightarrow> error + plane" where
  "draw_axes cp =
     (let cp = cp\<lparr>items := filter (\<lambda>i. \<not> is_axis i) (items cp)\<rparr>
      in (case origin cp of
            None \<Rightarrow> Inl TypeError
          | Some (ox, oy) \<Rightarrow>
              Inr (cp\<lparr>items := items cp @ [AxisLine 0 oy (width cp) oy,
                                              AxisLine ox 0 ox (height cp)]\<rparr>)))"

text \<open>The statement \<open>if not self.origin: self.origin = (w / 2, h / 2)\<close> followed by a read.\<close>

definition get_origin :: "plane \<Rightarrow> point \<times> plane" where
  "get_origin cp =
     (case origin cp of
        None \<Rightarrow> (let c = (width cp / 2, height cp / 2) in (c, cp\<lparr>origin := Some c\<rparr>))
      | Some c \<Rightarrow> (c, cp))"

definition cartesian_plan_coordinates :: "plane \<Rightarrow> real \<Rightarrow> real \<Rightarrow> point \<times> plane" where
  "cartesian_plan_coordinates cp x y =
     (let ((ox, oy), cp) = get_origin cp in ((x - ox, oy - y), cp))"

definition get_pixel_coordinates :: "plane \<Rightarrow> real \<Rightarrow> real \<Rightarrow> point \<times> plane" where
  "get_pixel_coordinates cp x y =
     (let ((ox, oy), cp) = get_origin cp in ((x + ox, oy - y), cp))"

section \<open>rasterization.py\<close>

subsection \<open>DDA line\<close>

text \<open>The \<open>for k in range(round(steps))\<close> loop, by the number of passes left.\<close>

fun dda_loop :: "nat \<Rightarrow> real \<Rightarrow> real \<Rightarrow> real \<Rightarrow> real \<Rightarrow> plane \<Rightarrow> color \<Rightarrow> plane" where
  "dda_loop 0 x y x_incr y_incr cp color = cp"
| "dda_loop (Suc k) x y x_incr y_incr cp color =
     (let x = x + x_incr; y = y + y_incr
      in dda_loop k x y x_incr y_incr
           (draw_pixel cp (of_int (py_round x)) (of_int (py_round y)) color) color)"

definition draw_DDA_line ::
  "real \<Rightarrow> real \<Rightarrow> real \<Rightarrow> real \<Rightarrow> plane \<Rightarrow> color \<Rightarrow> error + plane" where
  "draw_DDA_line x1 y1 x2 y2 cp color =
     (let dx = x2 - x1; dy = y2 - y1;
          steps = (if \<bar>dx\<bar> > \<bar>dy\<bar> then \<bar>dx\<bar> else \<bar>dy\<bar>)
      in (case py_div dx steps of
            Inl e \<Rightarrow> Inl e
          | Inr x_incr \<Rightarrow>
             (case py_div dy steps of
                Inl e \<Rightarrow> Inl e
              | Inr y_incr \<Rightarrow>
                  Inr (dda_loop (nat (py_round steps)) x1 y1 x_incr y_incr
                         (draw_pixel cp (of_int (py_round x1)) (of_int (py_round y1)) color)
                         color))))"

subsection \<open>Bresenham line\<close>

text \<open>
  \<open>range(dx)\<close> and \<open>range(dy)\<close> accept only Python ints, and the only caller passes mouse
  coordinates, so the endpoints are integers here.
\<close>

fun bresenham_x_loop ::
  "nat \<Rightarrow> int \<Rightarrow> int \<Rightarrow> int \<Rightarrow> int \<Rightarrow> int \<Rightarrow> int \<Rightarrow> int \<Rightarrow> plane \<Rightarrow> color \<Rightarrow> plane" where
  "bresenham_x_loop 0 decision_p x y incE incNE incrx incry cp color = cp"
| "bresenham_x_loop (Suc k) decision_p x y incE incNE incrx incry cp color =
     (if decision_p \<le> 0
      then bresenham_x_loop k (decision_p + incE) (x + incrx) y incE incNE incrx incry
             (draw_pixel cp (of_int (x + incrx)) (of_int y) color) color
      else bresenham_x_loop k (decision_p + incNE) (x + incrx) (y + incry) incE incNE incrx incry
             (draw_pixel cp (of_int (x + incrx)) (of_int (y + incry)) color) color)"

fun bresenham_y_loop ::
  "nat \<Rightarrow> int \<Rightarrow> int \<Rightarrow> int \<Rightarrow> int \<Rightarrow> int \<Rightarrow> int \<Rightarrow> int \<Rightarrow> plane \<Rightarrow> color \<Rightarrow> plane" where
  "bresenham_y_loop 0 decision_p x y incN incNE incrx incry cp color = cp"
| "bresenham_y_loop (Suc k) decision_p x y incN incNE incrx incry cp color =
     (if decision_p \<le> 0
      then bresenham_y_loop k (decision_p + incN) x (y + incry) incN incNE incrx incry
             (draw_pixel cp (of_int x) (of_int (y + incry)) color) color
      else bresenham_y_loop k (decision_p + incNE) (x + incrx) (y + incry) incN incNE incrx incry
             (draw_pixel cp (of_int (x + incrx)) (of_int (y + incry)) color) color)"

definition draw_Bresenham_line ::
  "int \<Rightarrow> int \<Rightarrow> int \<Rightarrow> int \<Rightarrow> plane \<Rightarrow> color \<Rightarrow> plane" where
  "draw_Bresenham_line x_initial0 y_initial0 x_final0 y_final0 cp color =
     (let dx = \<bar>x_final0 - x_initial0\<bar>; dy = \<bar>y_final0 - y_initial0\<bar>;
          incrx = (if x_initial0 < x_final0 then 1 else - 1);
          incry = (if y_initial0 < y_final0 then 1 else - 1);
          x = x_initial0; y = y_initial0;
          cp = draw_pixel cp (of_int x) (of_int y) color
      in if dx > dy
         then bresenham_x_loop (nat dx) (2 * dy - dx) x y (2 * dy) (2 * (dy - dx)) incrx incry cp color
         else bresenham_y_loop (nat dy) (2 * dx - dy) x y (2 * dx) (2 * (dx - dy)) incrx incry cp color)"

subsection \<open>Bresenham circle\<close>

definition plot_circumference_points ::
  "real \<Rightarrow> real \<Rightarrow> real \<Rightarrow> real \<Rightarrow> plane \<Rightarrow> color \<Rightarrow> plane" where
  "plot_circumference_points xc x yc y cp color =
     (let cp = draw_pixel cp (xc - x) (yc + y) color;
          cp = draw_pixel cp (xc + x) (yc - y) color;
          cp = draw_pixel cp (xc + x) (yc + y) color;
          cp = draw_pixel cp (xc - x) (yc - y) color;
          cp = draw_pixel cp (xc + y) (yc + x) color;
          cp = draw_pixel cp (xc - y) (yc + x) color;
          cp = draw_pixel cp (xc + y) (yc - x) color;
          cp = draw_pixel cp (xc - y) (yc - x) color
      in cp)"

text \<open>
  The \<open>while x < y\<close> loop. The radius is a float in the program (a Euclidean distance),
  so the loop is not bounded by its text; it is a partial function and its termination
  is a theorem below.
\<close>

partial_function (option) circle_loop ::
  "real \<Rightarrow> real \<Rightarrow> real \<Rightarrow> real \<Rightarrow> real \<Rightarrow> plane \<Rightarrow> color \<Rightarrow> plane option" where
  "circle_loop xc yc x y p cp color =
     (if x < y then
        (if p < 0
         then circle_loop xc yc (x + 1) y (p + 4 * x + 6)
                (plot_circumference_points xc (x + 1) yc y cp color) color
         else circle_loop xc yc (x + 1) (y - 1) (p + 4 * (x - y) + 10)
                (plot_circumference_points xc (x + 1) yc (y - 1) cp color) color)
      else Some cp)"

definition draw_Bresenham_circle ::
  "real \<Rightarrow> real \<Rightarrow> real \<Rightarrow> plane \<Rightarrow> color \<Rightarrow> plane option" where
  "draw_Bresenham_circle xc yc r cp color =
     (let x = 0; y = r; p = 3 - 2 * r
      in circle_loop xc yc x y p (plot_circumference_points xc x yc y cp color) color)"

section \<open>transformation2d.py\<close>

subsection \<open>translate\<close>

fun translate_lines :: "real \<Rightarrow> real \<Rightarrow> line list \<Rightarrow> plane \<Rightarrow> error + plane" where
  "translate_lines tx ty [] cp = Inr cp"
| "translate_lines tx ty (line # rest) cp =
     (case draw_DDA_line (fst (fst line) + tx) (snd (fst line) + ty)
                         (fst (snd line) + tx) (snd (snd line) + ty) cp (255, 0, 0) of
        Inl e \<Rightarrow> Inl e
      | Inr cp' \<Rightarrow> translate_lines tx ty rest cp')"

fun translate_circles :: "real \<Rightarrow> real \<Rightarrow> circle list \<Rightarrow> plane \<Rightarrow> plane option" where
  "translate_circles tx ty [] cp = Some cp"
| "translate_circles tx ty (circle # rest) cp =
     (case draw_Bresenham_circle (fst (fst circle) + tx) (snd (fst circle) + ty) (snd circle)
             (draw_pixel cp (fst (fst circle) + tx) (snd (fst circle) + ty) (255, 0, 0))
             (255, 0, 0) of
        None \<Rightarrow> None
      | Some cp' \<Rightarrow> translate_circles tx ty rest cp')"

text \<open>
  \<open>translate\<close> returns nothing: its effect is what it draws on the plane. The result is
  the plane afterwards, an error when a call raised, \<open>None\<close> when a loop did not return.
\<close>

definition translate ::
  "real \<Rightarrow> real \<Rightarrow> plane \<Rightarrow> line list option \<Rightarrow> circle list option \<Rightarrow> (error + plane) option" where
  "translate tx ty cp lines0 circles0 =
     (let lines1 = (case lines0 of None \<Rightarrow> [] | Some ls \<Rightarrow> ls);
          circles1 = (case circles0 of None \<Rightarrow> [] | Some cs \<Rightarrow> cs)
      in (case draw_axes (delete_all cp) of
            Inl e \<Rightarrow> Some (Inl e)
          | Inr cp \<Rightarrow>
             (case translate_lines tx ty lines1 cp of
                Inl e \<Rightarrow> Some (Inl e)
              | Inr cp \<Rightarrow> map_option Inr (translate_circles tx ty circles1 cp))))"

subsection \<open>rotate, scale\<close>


definition scale_line :: "line \<Rightarrow> real \<Rightarrow> line" where
  "scale_line line scale_factor =
     (let ((x1, y1), (x2, y2)) = line;
          dx = x2 - x1; dy = y2 - y1;
          dx_scaled = dx * scale_factor; dy_scaled = dy * scale_factor;
          x2_new = x1 + dx_scaled; y2_new = y1 + dy_scaled
      in ((x1, y1), (x2_new, y2_new)))"

definition scale_circle :: "circle \<Rightarrow> real \<Rightarrow> circle" where
  "scale_circle circle scale_factor =
     (let ((xc, yc), r) = circle; r_scaled = r * scale_factor in ((xc, yc), r_scaled))"

subsection \<open>reflect\<close>

text \<open>
  A Python function that reaches its end without \<open>return\<close> yields \<open>None\<close>: that is the
  last branch of both functions. The plane is returned too, since the coordinate
  conversions may set its origin.
\<close>

definition reflect_line :: "line \<Rightarrow> string \<Rightarrow> plane \<Rightarrow> line option \<times> plane" where
  "reflect_line line axis cp =
     (let ((x1, y1), (x2, y2)) = line;
          ((x1, y1), cp) = cartesian_plan_coordinates cp x1 y1;
          ((x2, y2), cp) = cartesian_plan_coordinates cp x2 y2
      in if axis = ''X'' then
           (let (a, cp) = get_pixel_coordinates cp x1 (- y1);
                (b, cp) = get_pixel_coordinates cp x2 (- y2)
            in (Some (a, b), cp))
         else if axis = ''Y'' then
           (let (a, cp) = get_pixel_coordinates cp (- x1) y1;
                (b, cp) = get_pixel_coordinates cp (- x2) y2
            in (Some (a, b), cp))
         else if axis = ''XY'' then
           (let (a, cp) = get_pixel_coordinates cp (- x1) (- y1);
                (b, cp) = get_pixel_coordinates cp (- x2) (- y2)
            in (Some (a, b), cp))
         else (None, cp))"

definition reflect_circle :: "circle \<Rightarrow> string \<Rightarrow> plane \<Rightarrow> circle option \<times> plane" where
  "reflect_circle circle axis cp =
     (let ((xc, yc), r) = circle;
          ((xc, yc), cp) = cartesian_plan_coordinates cp xc yc
      in if axis = ''X'' then
           (let (a, cp) = get_pixel_coordinates cp xc (- yc) in (Some (a, r), cp))
         else if axis = ''Y'' then
           (let (a, cp) = get_pixel_coordinates cp (- xc) yc in (Some (a, r), cp))
         else if axis = ''XY'' then
           (let (a, cp) = get_pixel_coordinates cp (- xc) (- yc) in (Some (a, r), cp))
         else (None, cp))"

section \<open>main.py: operations of the plane\<close>

definition translate_points :: "real \<Rightarrow> real \<Rightarrow> plane \<Rightarrow> (error + plane) option" where
  "translate_points delta_x delta_y cp =
     translate delta_x delta_y cp (Some (lines cp)) (Some (circles cp))"

text \<open>The two loops of \<open>CartesianPlane.reflect\<close> that collect the reflected primitives.\<close>

fun reflect_lines :: "line list \<Rightarrow> string \<Rightarrow> plane \<Rightarrow> line option list \<times> plane" where
  "reflect_lines [] axis cp = ([], cp)"
| "reflect_lines (line # rest) axis cp =
     (let (reflected_line, cp) = reflect_line line axis cp;
          (reflected_lines, cp) = reflect_lines rest axis cp
      in (reflected_line # reflected_lines, cp))"

fun reflect_circles :: "circle list \<Rightarrow> string \<Rightarrow> plane \<Rightarrow> circle option list \<times> plane" where
  "reflect_circles [] axis cp = ([], cp)"
| "reflect_circles (circle # rest) axis cp =
     (let (reflected_circle, cp) = reflect_circle circle axis cp;
          (reflected_circles, cp) = reflect_circles rest axis cp
      in (reflected_circle # reflected_circles, cp))"

text \<open>
  The redraw loops of \<open>reflect\<close>. The lists they walk were filled with the results of
  \<open>reflect_line\<close> and \<open>reflect_circle\<close>; subscripting a \<open>None\<close> entry raises \<open>TypeError\<close>.
\<close>

fun redraw_lines :: "line option list \<Rightarrow> plane \<Rightarrow> error + plane" where
  "redraw_lines [] cp = Inr cp"
| "redraw_lines (None # rest) cp = Inl TypeError"
| "redraw_lines (Some line # rest) cp =
     (case draw_DDA_line (fst (fst line)) (snd (fst line)) (fst (snd line)) (snd (snd line))
             cp (0, 0, 0) of
        Inl e \<Rightarrow> Inl e
      | Inr cp' \<Rightarrow> redraw_lines rest cp')"

fun redraw_circles :: "circle option list \<Rightarrow> plane \<Rightarrow> (error + plane) option" where
  "redraw_circles [] cp = Some (Inr cp)"
| "redraw_circles (None # rest) cp = Some (Inl TypeError)"
| "redraw_circles (Some circle # rest) cp =
     (case draw_Bresenham_circle (fst (fst circle)) (snd (fst circle)) (snd circle)
             (draw_pixel cp (fst (fst circle)) (snd (fst circle)) (0, 0, 0)) (0, 0, 0) of
        None \<Rightarrow> None
      | Some cp' \<Rightarrow> redraw_circles rest cp')"

text \<open>
  \<open>CartesianPlane.reflect\<close>. The stored lists are replaced by the collected results before
  the redraw; when the redraw returns, every collected entry was a primitive, and the
  stored lists are these primitives in order.
\<close>

definition reflect :: "string \<Rightarrow> plane \<Rightarrow> (error + plane) option" where
  "reflect axis cp =
     (let (reflected_lines, cp) = reflect_lines (lines cp) axis cp;
          (reflected_circles, cp) = reflect_circles (circles cp) axis cp
      in (case draw_axes (delete_all cp) of
            Inl e \<Rightarrow> Some (Inl e)
          | Inr cp \<Rightarrow>
             (let cp = cp\<lparr>lines := List.map_filter (\<lambda>l. l) reflected_lines,
                            circles := List.map_filter (\<lambda>c. c) reflected_circles\<rparr>
              in (case redraw_lines reflected_lines cp of
                    Inl e \<Rightarrow> Some (Inl e)
                  | Inr cp \<Rightarrow> redraw_circles reflected_circles cp))))"

text \<open>
  \<open>App.reflect_popup\<close>; the argument \<open>axis\<close> is what the dialog returned (\<open>None\<close> when it
  was cancelled).
\<close>

definition reflect_popup :: "string option \<Rightarrow> plane \<Rightarrow> (error + plane) option" where
  "reflect_popup axis cp =
     (case axis of
        None \<Rightarrow> Some (Inr cp)
      | Some a \<Rightarrow> if a \<in> set [''X'', ''Y'', ''XY''] then reflect a cp else Some (Inr cp))"

section \<open>Double-precision arithmetic\<close>

text \<open>
  The sections above compute in exact reals. Python computes in IEEE binary64: every
  operation on floats returns the exact result rounded to the nearest double, ties to
  the even significand. This section writes that rounding out, and the next one embeds
  the two clipping functions a second time with every operation rounded. A Python float
  is a finite number, an infinity or NaN; the sign of a zero is not kept, since no
  operation of the clipping functions can tell the two zeros apart (a division by
  either raises \<open>ZeroDivisionError\<close>). An int argument is covered as the double of
  the same value, which is exact for pixel coordinates.
\<close>

datatype pyfloat = Fin real | PInf | NInf | NaN

type_synonym fpoint = "pyfloat \<times> pyfloat"

text \<open>
  The exponent of the binade of \<open>x\<close> (at least -1022, where the subnormal numbers begin),
  the spacing of the doubles in that binade, and \<open>x\<close> rounded to a multiple of that
  spacing with \<open>py_round\<close>, which is round-half-even on the 53-bit significand.
\<close>

definition binade :: "real \<Rightarrow> int" where
  "binade x = max \<lfloor>log 2 \<bar>x\<bar>\<rfloor> (- 1022)"

definition ulp :: "real \<Rightarrow> real" where
  "ulp x = 2 powi (binade x - 52)"

definition rd :: "real \<Rightarrow> real" where
  "rd x = (if x = 0 then 0 else of_int (py_round (x / ulp x)) * ulp x)"

definition overflow_threshold :: real where
  "overflow_threshold = 2 powi 1024"

definition round_double :: "real \<Rightarrow> pyfloat" where
  "round_double x =
     (let v = rd x
      in if overflow_threshold \<le> v then PInf
         else if v \<le> - overflow_threshold then NInf
         else Fin v)"

text \<open>The reals that are doubles.\<close>

definition is_double :: "real \<Rightarrow> bool" where
  "is_double x = (round_double x = Fin x)"

fun f_neg :: "pyfloat \<Rightarrow> pyfloat" where
  "f_neg (Fin a) = Fin (- a)"
| "f_neg PInf = NInf"
| "f_neg NInf = PInf"
| "f_neg NaN = NaN"

text \<open>Comparisons: every comparison with NaN is false.\<close>

fun f_lt :: "pyfloat \<Rightarrow> pyfloat \<Rightarrow> bool" where
  "f_lt (Fin a) (Fin b) = (a < b)"
| "f_lt NInf (Fin b) = True"
| "f_lt NInf PInf = True"
| "f_lt (Fin a) PInf = True"
| "f_lt a b = False"

definition f_gt :: "pyfloat \<Rightarrow> pyfloat \<Rightarrow> bool" where
  "f_gt a b = f_lt b a"

definition f_eq :: "pyfloat \<Rightarrow> pyfloat \<Rightarrow> bool" where
  "f_eq a b = (a = b \<and> a \<noteq> NaN)"

definition f_le :: "pyfloat \<Rightarrow> pyfloat \<Rightarrow> bool" where
  "f_le a b = (f_lt a b \<or> f_eq a b)"

fun f_add :: "pyfloat \<Rightarrow> pyfloat \<Rightarrow> pyfloat" where
  "f_add (Fin a) (Fin b) = round_double (a + b)"
| "f_add NaN b = NaN"
| "f_add a NaN = NaN"
| "f_add PInf NInf = NaN"
| "f_add NInf PInf = NaN"
| "f_add PInf b = PInf"
| "f_add a PInf = PInf"
| "f_add NInf b = NInf"
| "f_add a NInf = NInf"

definition f_sub :: "pyfloat \<Rightarrow> pyfloat \<Rightarrow> pyfloat" where
  "f_sub a b = f_add a (f_neg b)"

text \<open>
  The infinity \<open>i\<close> multiplied or divided by \<open>b\<close>: it keeps its sign for positive
  \<open>b\<close>, changes it for negative \<open>b\<close>, and gives NaN for zero and NaN.
\<close>

definition inf_signed :: "pyfloat \<Rightarrow> pyfloat \<Rightarrow> pyfloat" where
  "inf_signed i b =
     (if f_lt (Fin 0) b then i else if f_lt b (Fin 0) then f_neg i else NaN)"

fun f_mul :: "pyfloat \<Rightarrow> pyfloat \<Rightarrow> pyfloat" where
  "f_mul (Fin a) (Fin b) = round_double (a * b)"
| "f_mul NaN b = NaN"
| "f_mul a NaN = NaN"
| "f_mul PInf b = inf_signed PInf b"
| "f_mul NInf b = inf_signed NInf b"
| "f_mul a PInf = inf_signed PInf a"
| "f_mul a NInf = inf_signed NInf a"

text \<open>Python's \<open>/\<close> on floats raises on a zero divisor, whatever the dividend.\<close>

fun f_div :: "pyfloat \<Rightarrow> pyfloat \<Rightarrow> error + pyfloat" where
  "f_div a (Fin b) =
     (if b = 0 then Inl ZeroDivisionError
      else case a of
             Fin a' \<Rightarrow> Inr (round_double (a' / b))
           | NaN \<Rightarrow> Inr NaN
           | PInf \<Rightarrow> Inr (inf_signed PInf (Fin b))
           | NInf \<Rightarrow> Inr (inf_signed NInf (Fin b)))"
| "f_div a NaN = Inr NaN"
| "f_div (Fin a) b = Inr (Fin 0)"
| "f_div a b = Inr NaN"

section \<open>clipping.py in double arithmetic\<close>

text \<open>
  The same source functions as in section \<open>clipping.py\<close>, statement for statement, on
  Python floats. Names carry the suffix \<open>_f\<close>.
\<close>

subsection \<open>Cohen-Sutherland\<close>

definition region_code_f ::
  "pyfloat \<Rightarrow> pyfloat \<Rightarrow> pyfloat \<Rightarrow> pyfloat \<Rightarrow> pyfloat \<Rightarrow> pyfloat \<Rightarrow> int" where
  "region_code_f x y x_min x_max y_min y_max =
     (let code = INSIDE;
          code = (if f_lt x x_min then code OR LEFT
                  else if f_gt x x_max then code OR RIGHT
                  else code);
          code = (if f_lt y y_min then code OR BOTTOM
                  else if f_gt y y_max then code OR TOP
                  else code)
      in code)"

record cs_state_f =
  x_initial_f :: pyfloat
  y_initial_f :: pyfloat
  x_final_f :: pyfloat
  y_final_f :: pyfloat
  code1_f :: int
  code2_f :: int
  line_accepted_f :: bool

type_synonym window_f = "pyfloat \<times> pyfloat \<times> pyfloat \<times> pyfloat"

text \<open>
  The four intersection formulas of the source have one shape,
  \<open>u + (v - u) * (bound - s) / (t - s)\<close>: for TOP it is
  \<open>x_initial + (x_final - x_initial) * (y_max - y_initial) / (y_final - y_initial)\<close>.
  Python evaluates the product first, then the quotient, then the sum.
\<close>

definition interpolate_f ::
  "pyfloat \<Rightarrow> pyfloat \<Rightarrow> pyfloat \<Rightarrow> pyfloat \<Rightarrow> pyfloat \<Rightarrow> error + pyfloat" where
  "interpolate_f u v bound s t =
     (case f_div (f_mul (f_sub v u) (f_sub bound s)) (f_sub t s) of
        Inl e \<Rightarrow> Inl e
      | Inr q \<Rightarrow> Inr (f_add u q))"

definition cs_intersection_f :: "window_f \<Rightarrow> cs_state_f \<Rightarrow> int \<Rightarrow> error + fpoint" where
  "cs_intersection_f w st code_out =
     (case w of (x_min, x_max, y_min, y_max) \<Rightarrow>
      if (code_out AND TOP) \<noteq> 0 then
        (case interpolate_f (x_initial_f st) (x_final_f st) y_max (y_initial_f st) (y_final_f st) of
           Inl e \<Rightarrow> Inl e
         | Inr x \<Rightarrow> Inr (x, y_max))
      else if (code_out AND BOTTOM) \<noteq> 0 then
        (case interpolate_f (x_initial_f st) (x_final_f st) y_min (y_initial_f st) (y_final_f st) of
           Inl e \<Rightarrow> Inl e
         | Inr x \<Rightarrow> Inr (x, y_min))
      else if (code_out AND RIGHT) \<noteq> 0 then
        (case interpolate_f (y_initial_f st) (y_final_f st) x_max (x_initial_f st) (x_final_f st) of
           Inl e \<Rightarrow> Inl e
         | Inr y \<Rightarrow> Inr (x_max, y))
      else if (code_out AND LEFT) \<noteq> 0 then
        (case interpolate_f (y_initial_f st) (y_final_f st) x_min (x_initial_f st) (x_final_f st) of
           Inl e \<Rightarrow> Inl e
         | Inr y \<Rightarrow> Inr (x_min, y))
      else Inr (Fin 0, Fin 0))"

definition in_window_f :: "window_f \<Rightarrow> pyfloat \<Rightarrow> pyfloat \<Rightarrow> bool" where
  "in_window_f w x y =
     (case w of (x_min, x_max, y_min, y_max) \<Rightarrow>
        f_le x_min x \<and> f_le x x_max \<and> f_le y_min y \<and> f_le y y_max)"

definition cs_clip_f :: "window_f \<Rightarrow> cs_state_f \<Rightarrow> error + cs_state_f" where
  "cs_clip_f w st =
     (case w of (x_min, x_max, y_min, y_max) \<Rightarrow>
      let code_out = (if code1_f st \<noteq> 0 then code1_f st else code2_f st)
      in (case cs_intersection_f w st code_out of
            Inl e \<Rightarrow> Inl e
          | Inr (x, y) \<Rightarrow>
              (let st' = (if code_out = code1_f st
                          then st\<lparr>x_initial_f := x, y_initial_f := y,
                                  code1_f := region_code_f x y x_min x_max y_min y_max\<rparr>
                          else st\<lparr>x_final_f := x, y_final_f := y,
                                  code2_f := region_code_f x y x_min x_max y_min y_max\<rparr>)
               in Inr (if in_window_f w (x_initial_f st') (y_initial_f st')
                          \<or> in_window_f w (x_final_f st') (y_final_f st')
                       then st'\<lparr>line_accepted_f := True\<rparr> else st'))))"

partial_function (option) cs_loop_f ::
  "window_f \<Rightarrow> cs_state_f \<Rightarrow> (error + bool \<times> cs_state_f) option" where
  "cs_loop_f w st =
     (if (code1_f st = 0 \<and> code2_f st = 0) \<or> (code1_f st AND code2_f st) \<noteq> 0 then
        Some (Inr (True, st))
      else if (code1_f st AND code2_f st) \<noteq> 0 then
        Some (Inr (False, st))
      else
        (case cs_clip_f w st of
           Inl e \<Rightarrow> Some (Inl e)
         | Inr st' \<Rightarrow> cs_loop_f w st'))"

definition clipping_cohen_sutherland_f ::
  "pyfloat \<Rightarrow> pyfloat \<Rightarrow> pyfloat \<Rightarrow> pyfloat \<Rightarrow> fpoint \<Rightarrow> fpoint
     \<Rightarrow> (error + bool \<times> (fpoint \<times> fpoint) option) option" where
  "clipping_cohen_sutherland_f x_initial0 y_initial0 x_final0 y_final0 c_initial c_final =
     (let (x_min, y_min) = c_initial;
          (x_max, y_max) = c_final;
          st0 = \<lparr>x_initial_f = x_initial0, y_initial_f = y_initial0,
                 x_final_f = x_final0, y_final_f = y_final0,
                 code1_f = region_code_f x_initial0 y_initial0 x_min x_max y_min y_max,
                 code2_f = region_code_f x_final0 y_final0 x_min x_max y_min y_max,
                 line_accepted_f = False\<rparr>
      in (case cs_loop_f (x_min, x_max, y_min, y_max) st0 of
            None \<Rightarrow> None
          | Some (Inl e) \<Rightarrow> Some (Inl e)
          | Some (Inr (accept, st)) \<Rightarrow>
              if accept \<and> line_accepted_f st
              then Some (Inr (True, Some ((x_initial_f st, y_initial_f st),
                                          (x_final_f st, y_final_f st))))
              else Some (Inr (False, None))))"

subsection \<open>Liang-Barsky\<close>

definition lb_axis_f ::
  "pyfloat \<Rightarrow> pyfloat \<Rightarrow> pyfloat \<Rightarrow> pyfloat \<Rightarrow> pyfloat list \<times> pyfloat list
     \<Rightarrow> error + pyfloat list \<times> pyfloat list" where
  "lb_axis_f pa pb qa qb arrs =
     (case arrs of (negarr, posarr) \<Rightarrow>
      if \<not> f_eq pa (Fin 0) then
        (case f_div qa pa of
           Inl e \<Rightarrow> Inl e
         | Inr ra \<Rightarrow>
            (case f_div qb pb of
               Inl e \<Rightarrow> Inl e
             | Inr rb \<Rightarrow>
                 if f_lt pa (Fin 0) then Inr (negarr @ [ra], posarr @ [rb])
                 else Inr (negarr @ [rb], posarr @ [ra])))
      else Inr (negarr, posarr))"

text \<open>
  Python's \<open>max\<close> and \<open>min\<close> keep the first element and replace it only by a later one
  that compares greater (smaller), so a NaN later in the list is never chosen.
\<close>

definition py_max_f :: "pyfloat list \<Rightarrow> pyfloat" where
  "py_max_f xs = fold (\<lambda>x m. if f_gt x m then x else m) (tl xs) (hd xs)"

definition py_min_f :: "pyfloat list \<Rightarrow> pyfloat" where
  "py_min_f xs = fold (\<lambda>x m. if f_lt x m then x else m) (tl xs) (hd xs)"

definition clipping_liang_barsky_f ::
  "pyfloat \<Rightarrow> pyfloat \<Rightarrow> pyfloat \<Rightarrow> pyfloat \<Rightarrow> pyfloat \<Rightarrow> pyfloat \<Rightarrow> pyfloat \<Rightarrow> pyfloat
     \<Rightarrow> error + bool \<times> (fpoint \<times> fpoint) option" where
  "clipping_liang_barsky_f x1 y1 x2 y2 xmin ymin xmax ymax =
     (let p1 = f_neg (f_sub x2 x1); p2 = f_neg p1; p3 = f_neg (f_sub y2 y1); p4 = f_neg p3;
          q1 = f_sub x1 xmin; q2 = f_sub xmax x1; q3 = f_sub y1 ymin; q4 = f_sub ymax y1;
          posarr = [Fin 1]; negarr = [Fin 0]
      in if (f_eq p1 (Fin 0) \<and> f_lt q1 (Fin 0)) \<or> (f_eq p2 (Fin 0) \<and> f_lt q2 (Fin 0))
            \<or> (f_eq p3 (Fin 0) \<and> f_lt q3 (Fin 0)) \<or> (f_eq p4 (Fin 0) \<and> f_lt q4 (Fin 0))
         then Inr (False, None)
         else
           (case lb_axis_f p1 p2 q1 q2 (negarr, posarr) of
              Inl e \<Rightarrow> Inl e
            | Inr arrs \<Rightarrow>
               (case lb_axis_f p3 p4 q3 q4 arrs of
                  Inl e \<Rightarrow> Inl e
                | Inr (negarr, posarr) \<Rightarrow>
                    (let rn1 = py_max_f negarr; rn2 = py_min_f posarr
                     in if f_gt rn1 rn2 then Inr (False, None)
                        else
                          (let xn1 = f_add x1 (f_mul p2 rn1); yn1 = f_add y1 (f_mul p4 rn1);
                               xn2 = f_add x1 (f_mul p2 rn2); yn2 = f_add y1 (f_mul p4 rn2)
                           in Inr (True, Some ((xn1, yn1), (xn2, yn2))))))))"

section \<open>Predicates used in the proofs\<close>



text \<open>The part of the plane that holds the scene.\<close>

definition stored :: "plane \<Rightarrow> line list \<times> circle list" where
  "stored cp = (lines cp, circles cp)"

text \<open>The same invariant and exit condition for the loop in double arithmetic.\<close>

definition cs_inv_f :: "window_f \<Rightarrow> cs_state_f \<Rightarrow> bool" where
  "cs_inv_f w st =
     (case w of (x_min, x_max, y_min, y_max) \<Rightarrow>
        code1_f st = region_code_f (x_initial_f st) (y_initial_f st) x_min x_max y_min y_max
      \<and> code2_f st = region_code_f (x_final_f st) (y_final_f st) x_min x_max y_min y_max
      \<and> (line_accepted_f st \<longrightarrow> code1_f st = 0 \<or> code2_f st = 0))"

definition cs_exit_f :: "window_f \<Rightarrow> error + bool \<times> cs_state_f \<Rightarrow> bool" where
  "cs_exit_f w r =
     (case r of
        Inl e \<Rightarrow> True
      | Inr (accept, st') \<Rightarrow> cs_inv_f w st'
          \<and> ((code1_f st' = 0 \<and> code2_f st' = 0) \<or> (code1_f st' AND code2_f st') \<noteq> 0))"

text \<open>
  A returned coordinate lies between the bounds if it is a number. NaN compares false
  with everything, so a NaN coordinate has region code 0 as well.
\<close>

definition number_within :: "pyfloat \<Rightarrow> pyfloat \<Rightarrow> pyfloat \<Rightarrow> bool" where
  "number_within lo v hi = (v = NaN \<or> (f_le lo v \<and> f_le v hi))"

section \<open>Region codes and the Cohen-Sutherland loop\<close>

lemmas code_defs = INSIDE_def LEFT_def RIGHT_def BOTTOM_def TOP_def

lemma region_code_zero:
  "region_code x y xmin xmax ymin ymax = 0 \<longleftrightarrow> in_window (xmin, xmax, ymin, ymax) x y"
  by (auto simp add: region_code_def code_defs in_window_def)





text \<open>
  A segment with both endpoints inside the window leaves the loop at once with
  \<open>accept = True\<close>, but \<open>line_accepted\<close> is only ever set in the clipping branch, which was
  not entered: the call rejects.
\<close>

lemma cs_rejects_inside:
  assumes "in_window (xmin, xmax, ymin, ymax) x1 y1" and "in_window (xmin, xmax, ymin, ymax) x2 y2"
  shows "clipping_cohen_sutherland x1 y1 x2 y2 (xmin, ymin) (xmax, ymax) = Some (Inr (False, None))"
  using assms
  by (simp add: clipping_cohen_sutherland_def cs_loop.simps region_code_zero)

section \<open>Liang-Barsky\<close>

text \<open>
  In exact arithmetic the accepted endpoints of \<open>clipping_liang_barsky\<close> lie within the
  window (\<open>lb_accept_in_window\<close> below); the rounding of doubles, treated in the later
  sections, can move them across a bound.
\<close>

lemma py_max_Max: "xs \<noteq> [] \<Longrightarrow> py_max xs = Max (set xs)"
proof (cases xs)
  case (Cons a as)
  then show ?thesis using Max.set_eq_fold [of a as] by (simp add: py_max_def)
qed simp

lemma py_min_Min: "xs \<noteq> [] \<Longrightarrow> py_min xs = Min (set xs)"
proof (cases xs)
  case (Cons a as)
  then show ?thesis using Min.set_eq_fold [of a as] by (simp add: py_min_def)
qed simp

text \<open>What one axis contributes to the two parameter lists, by the sign of the delta.\<close>

lemma lb_axis_cases:
  assumes "lb_axis (- d) (- (- d)) (a - lo) (hi - a) (negarr, posarr) = r"
  shows "(d = 0 \<and> r = Inr (negarr, posarr))
       \<or> (0 < d \<and> r = Inr (negarr @ [(a - lo) / (- d)], posarr @ [(hi - a) / d]))
       \<or> (d < 0 \<and> r = Inr (negarr @ [(hi - a) / d], posarr @ [(a - lo) / (- d)]))"
proof -
  consider "d = 0" | "0 < d" | "d < 0" by linarith
  then show ?thesis
    using assms by cases (simp_all add: lb_axis_def py_div_def)
qed

lemma lb_axis_bound:
  assumes ax: "lb_axis (- d) (- (- d)) (a - lo) (hi - a) (negarr, posarr) = Inr (negarr', posarr')"
    and par: "\<not> (d = 0 \<and> a - lo < 0)" "\<not> (d = 0 \<and> hi - a < 0)"
    and lo: "\<forall>r \<in> set negarr'. r \<le> t" and hi: "\<forall>r \<in> set posarr'. t \<le> r"
  shows "lo \<le> a + d * t \<and> a + d * t \<le> hi"
proof -
  consider (z) "d = 0"
    | (p) "0 < d" "negarr' = negarr @ [(a - lo) / (- d)]" "posarr' = posarr @ [(hi - a) / d]"
    | (n) "d < 0" "negarr' = negarr @ [(hi - a) / d]" "posarr' = posarr @ [(a - lo) / (- d)]"
    using lb_axis_cases [OF ax] by auto
  then show ?thesis
  proof cases
    case z
    with par show ?thesis by simp
  next
    case p
    with lo hi have "(a - lo) / (- d) \<le> t" "t \<le> (hi - a) / d" by simp_all
    with p(1) show ?thesis by (simp add: field_simps)
  next
    case n
    with lo hi have "(hi - a) / d \<le> t" "t \<le> (a - lo) / (- d)" by simp_all
    with n(1) show ?thesis by (simp add: field_simps)
  qed
qed

lemma lb_axis_mono:
  assumes "lb_axis pa pb qa qb (negarr, posarr) = Inr (negarr', posarr')"
  shows "set negarr \<subseteq> set negarr' \<and> set posarr \<subseteq> set posarr'
         \<and> (negarr \<noteq> [] \<longrightarrow> negarr' \<noteq> []) \<and> (posarr \<noteq> [] \<longrightarrow> posarr' \<noteq> [])"
  using assms by (auto simp add: lb_axis_def py_div_def split: if_splits)

lemma lb_accept_payload:
  assumes "clipping_liang_barsky x1 y1 x2 y2 xmin ymin xmax ymax = Inr (True, seg)"
  shows "\<exists>a b c d. seg = Some ((a, b), (c, d))"
  using assms
  by (auto simp add: clipping_liang_barsky_def Let_def split: if_splits sum.splits prod.splits)

lemma lb_accept_in_window:
  assumes lb: "clipping_liang_barsky x1 y1 x2 y2 xmin ymin xmax ymax
                 = Inr (True, Some ((a, b), (c, d)))"
  shows "in_window (xmin, xmax, ymin, ymax) a b \<and> in_window (xmin, xmax, ymin, ymax) c d"
proof -
  define dx where "dx = x2 - x1"
  define dy where "dy = y2 - y1"
  have par: "\<not> (dx = 0 \<and> x1 - xmin < 0)" "\<not> (dx = 0 \<and> xmax - x1 < 0)"
            "\<not> (dy = 0 \<and> y1 - ymin < 0)" "\<not> (dy = 0 \<and> ymax - y1 < 0)"
    using lb by (auto simp add: clipping_liang_barsky_def dx_def dy_def Let_def split: if_splits)
  from lb par obtain n1 p1 n2 p2 where
    ax1: "lb_axis (- dx) (- (- dx)) (x1 - xmin) (xmax - x1) ([0], [1]) = Inr (n1, p1)" and
    ax2: "lb_axis (- dy) (- (- dy)) (y1 - ymin) (ymax - y1) (n1, p1) = Inr (n2, p2)" and
    le: "\<not> py_max n2 > py_min p2" and
    pts: "a = x1 + dx * py_max n2" "b = y1 + dy * py_max n2"
         "c = x1 + dx * py_min p2" "d = y1 + dy * py_min p2"
    by (auto simp add: clipping_liang_barsky_def dx_def dy_def Let_def
        split: if_splits sum.splits prod.splits)
  from lb_axis_mono [OF ax1] have m1: "n1 \<noteq> []" "p1 \<noteq> []" by auto
  from lb_axis_mono [OF ax2] m1
  have m2: "set n1 \<subseteq> set n2" "set p1 \<subseteq> set p2" "n2 \<noteq> []" "p2 \<noteq> []"
    by auto
  have nmax: "\<forall>r \<in> set n2. r \<le> py_max n2"
    using m2 by (simp add: py_max_Max)
  have pmin: "\<forall>r \<in> set p2. py_min p2 \<le> r"
    using m2 by (simp add: py_min_Min)
  from le have le': "py_max n2 \<le> py_min p2" by simp
  have lo1: "\<forall>r \<in> set n2. r \<le> py_max n2" and hi1: "\<forall>r \<in> set p2. py_max n2 \<le> r"
    using nmax pmin le' by force+
  have lo2: "\<forall>r \<in> set n2. r \<le> py_min p2" and hi2: "\<forall>r \<in> set p2. py_min p2 \<le> r"
    using nmax pmin le' by force+
  have x_lo1: "\<forall>r \<in> set n1. r \<le> py_max n2" and x_hi1: "\<forall>r \<in> set p1. py_max n2 \<le> r"
    and x_lo2: "\<forall>r \<in> set n1. r \<le> py_min p2" and x_hi2: "\<forall>r \<in> set p1. py_min p2 \<le> r"
    using lo1 hi1 lo2 hi2 m2 by blast+
  from lb_axis_bound [OF ax1 par(1,2) x_lo1 x_hi1] lb_axis_bound [OF ax2 par(3,4) lo1 hi1]
       lb_axis_bound [OF ax1 par(1,2) x_lo2 x_hi2] lb_axis_bound [OF ax2 par(3,4) lo2 hi2]
  show ?thesis by (simp add: in_window_def pts)
qed

section \<open>Claims about clipping\<close>

text \<open>
  Claim C1. The specification asks that Cohen-Sutherland and Liang-Barsky agree on
  accept/reject for every segment and window. They do not: for the segment from (0, 0) to
  (1, 1), which lies inside the window with corners (-5, -5) and (5, 5),
  \<open>clipping_cohen_sutherland\<close> returns \<open>(False, (None, None))\<close> while
  \<open>clipping_liang_barsky\<close> accepts it with its endpoints unchanged. The Cohen-Sutherland
  loop breaks before the only statement that sets \<open>line_accepted\<close>.
\<close>

theorem cs_lb_disagree_inside:
  "clipping_cohen_sutherland 0 0 1 1 (- 5, - 5) (5, 5) = Some (Inr (False, None))
   \<and> clipping_liang_barsky 0 0 1 1 (- 5) (- 5) 5 5 = Inr (True, Some ((0, 0), (1, 1)))"
proof
  show "clipping_cohen_sutherland 0 0 1 1 (- 5, - 5) (5, 5) = Some (Inr (False, None))"
    by (simp add: clipping_cohen_sutherland_def region_code_def code_defs cs_loop.simps)
  show "clipping_liang_barsky 0 0 1 1 (- 5) (- 5) 5 5 = Inr (True, Some ((0, 0), (1, 1)))"
    by (simp add: clipping_liang_barsky_def lb_axis_def py_div_def py_max_def py_min_def)
qed

text \<open>
  Claim C5. When the bitwise AND of the two initial region codes is nonzero (both
  endpoints violate the same window boundary), \<open>clipping_cohen_sutherland\<close> returns the
  reject result \<open>(False, (None, None))\<close>.
\<close>

theorem cs_trivial_reject:
  assumes "(region_code x1 y1 xmin xmax ymin ymax AND region_code x2 y2 xmin xmax ymin ymax) \<noteq> 0"
  shows "clipping_cohen_sutherland x1 y1 x2 y2 (xmin, ymin) (xmax, ymax)
           = Some (Inr (False, None))"
  using assms by (simp add: clipping_cohen_sutherland_def cs_loop.simps)

text \<open>The segment from (10, 0) to (20, 0), entirely to the right of the window.\<close>

theorem cs_trivial_reject_witness:
  "(region_code 10 0 (- 5) 5 (- 5) 5 AND region_code 20 0 (- 5) 5 (- 5) 5) \<noteq> 0
   \<and> clipping_cohen_sutherland 10 0 20 0 (- 5, - 5) (5, 5) = Some (Inr (False, None))"
proof -
  have h: "(region_code 10 0 (- 5) 5 (- 5) 5 AND region_code 20 0 (- 5) 5 (- 5) 5) \<noteq> 0"
    by (simp add: region_code_def code_defs)
  from cs_trivial_reject [OF h] h show ?thesis by simp
qed



section \<open>Rounding\<close>

lemma py_round_of_int: "py_round (of_int n) = n"
  by (simp add: py_round_def)


section \<open>Drawing leaves the stored primitives alone\<close>

lemma stored_draw_pixel: "stored (draw_pixel cp x y color) = stored cp"
  by (simp add: stored_def draw_pixel_def)

lemma stored_plot: "stored (plot_circumference_points xc x yc y cp color) = stored cp"
  by (simp add: plot_circumference_points_def stored_draw_pixel)

lemma stored_dda_loop: "stored (dda_loop k x y xi yi cp color) = stored cp"
  by (induction k arbitrary: x y cp) (simp_all add: stored_draw_pixel Let_def)

lemma stored_draw_DDA_line:
  "draw_DDA_line x1 y1 x2 y2 cp color = Inr cp' \<Longrightarrow> stored cp' = stored cp"
  by (auto simp add: draw_DDA_line_def Let_def stored_dda_loop stored_draw_pixel split: sum.splits)


lemma stored_circle_loop_aux:
  "y - x \<le> real n \<Longrightarrow> circle_loop xc yc x y p cp color = Some cp' \<Longrightarrow> stored cp' = stored cp"
proof (induction n arbitrary: x y p cp)
  case 0
  then show ?case by (subst (asm) circle_loop.simps) simp
next
  case (Suc n)
  from Suc.prems(1) have a: "y - (x + 1) \<le> real n" and b: "(y - 1) - (x + 1) \<le> real n"
    by simp_all
  from Suc.prems(2) show ?case
    by (subst (asm) circle_loop.simps)
       (auto split: if_splits dest!: Suc.IH [OF a] Suc.IH [OF b] simp add: stored_plot)
qed

lemma stored_circle_loop:
  assumes "circle_loop xc yc x y p cp color = Some cp'"
  shows "stored cp' = stored cp"
proof -
  have "y - x \<le> real (nat \<lceil>y - x\<rceil>)" by linarith
  from stored_circle_loop_aux [OF this assms] show ?thesis .
qed

lemma stored_draw_Bresenham_circle:
  "draw_Bresenham_circle xc yc r cp color = Some cp' \<Longrightarrow> stored cp' = stored cp"
  by (auto simp add: draw_Bresenham_circle_def stored_plot dest: stored_circle_loop)

lemma stored_translate_lines:
  "translate_lines tx ty ls cp = Inr cp' \<Longrightarrow> stored cp' = stored cp"
  by (induction ls arbitrary: cp) (auto split: sum.splits dest: stored_draw_DDA_line)

lemma stored_translate_circles:
  "translate_circles tx ty cs cp = Some cp' \<Longrightarrow> stored cp' = stored cp"
  by (induction cs arbitrary: cp)
     (auto split: option.splits dest!: stored_draw_Bresenham_circle simp add: stored_draw_pixel)

lemma stored_draw_axes: "draw_axes cp = Inr cp' \<Longrightarrow> stored cp' = stored cp"
  by (auto simp add: draw_axes_def stored_def Let_def split: option.splits)

text \<open>Whenever \<open>translate_points\<close> returns, the stored lists are the ones it started with.\<close>

lemma translate_points_stored:
  assumes "translate_points tx ty cp = Some (Inr cp')"
  shows "lines cp' = lines cp \<and> circles cp' = circles cp"
proof -
  from assms obtain c1 c2 where
    "draw_axes (delete_all cp) = Inr c1" "translate_lines tx ty (lines cp) c1 = Inr c2"
    "translate_circles tx ty (circles cp) c2 = Some cp'"
    by (auto simp add: translate_points_def translate_def split: sum.splits)
  then have "stored cp' = stored (delete_all cp)"
    using stored_draw_axes stored_translate_lines stored_translate_circles by metis
  then show ?thesis by (simp add: stored_def delete_all_def)
qed

section \<open>Claims about rasterization\<close>

text \<open>
  Claim C2. The specification asks that rasterizing the degenerate line from a point to
  itself emits exactly that one pixel and does not divide by zero, with either
  algorithm. \<open>draw_Bresenham_line\<close> does so. \<open>draw_DDA_line\<close> does not: \<open>steps\<close> is 0 and
  the first division, \<open>dx / steps\<close>, raises \<open>ZeroDivisionError\<close> before any pixel is drawn.
\<close>

theorem degenerate_line_dda_raises:
  "draw_DDA_line x y x y cp color = Inl ZeroDivisionError
   \<and> draw_Bresenham_line a b a b cp color = draw_pixel cp (of_int a) (of_int b) color"
  by (simp add: draw_DDA_line_def py_div_def draw_Bresenham_line_def)



section \<open>Claims about the transformations\<close>

text \<open>
  Claim C3. The specification asks that after the translate operation the plane's
  stored lines and circles are the previous ones moved by \<open>(tx, ty)\<close>. They are not:
  \<open>translate\<close> draws the moved primitives but \<open>translate_points\<close> never assigns
  \<open>self.lines\<close> or \<open>self.circles\<close>. Translating the scene with the line from (0, 0) to
  (1, 1) and the circle of radius 1 around (10, 10) by (5, 5) returns with both stored
  lists as they were, where the claim expects the line from (5, 5) to (6, 6) and the
  circle around (15, 15).
\<close>

theorem translate_points_keeps_stored_lists:
  "map_option (map_sum id (\<lambda>cp. (lines cp, circles cp)))
     (translate_points 5 5
        \<lparr>origin = Some (400, 300), width = 800, height = 600, items = [],
         lines = [((0, 0), (1, 1))], circles = [((10, 10), 1)]\<rparr>)
   = Some (Inr ([((0, 0), (1, 1))], [((10, 10), 1)]))"
  by (simp add: translate_points_def translate_def draw_axes_def delete_all_def
      draw_DDA_line_def py_div_def py_round_def draw_pixel_def
      draw_Bresenham_circle_def circle_loop.simps plot_circumference_points_def)

text \<open>
  Claim C7, as stated: for an axis token outside X, Y, XY, \<open>reflect_line\<close> returns the
  line unchanged. It does not: for the token Z no branch returns, and the call yields
  \<open>None\<close>.
\<close>

theorem reflect_line_invalid_axis_counterexample:
  "fst (reflect_line ((0, 0), (1, 1)) ''Z''
     \<lparr>origin = Some (400, 300), width = 800, height = 600, items = [],
      lines = [], circles = []\<rparr>)
   \<noteq> Some ((0, 0), (1, 1))"
  by (simp add: reflect_line_def cartesian_plan_coordinates_def get_origin_def)

text \<open>
  Claim C7, amended. For every axis token outside X, Y, XY, \<open>reflect_line\<close> and
  \<open>reflect_circle\<close> return \<open>None\<close>, no primitive at all. The operation is a no-op one level
  up: \<open>reflect_popup\<close> does not call \<open>reflect\<close> for such a token and leaves the plane as it
  is.
\<close>

theorem reflect_invalid_axis_none:
  assumes "axis \<notin> {''X'', ''Y'', ''XY''}"
  shows "fst (reflect_line line axis cp) = None
         \<and> fst (reflect_circle circle axis cp) = None
         \<and> reflect_popup (Some axis) cp = Some (Inr cp)"
  using assms
  by (simp add: reflect_line_def reflect_circle_def reflect_popup_def split_beta Let_def)

theorem reflect_invalid_axis_none_witness:
  "''Z'' \<notin> {''X'', ''Y'', ''XY''}
   \<and> fst (reflect_line ((0, 0), (1, 1)) ''Z''
       \<lparr>origin = Some (400, 300), width = 800, height = 600, items = [],
        lines = [((0, 0), (1, 1))], circles = [((10, 10), 1)]\<rparr>) = None
   \<and> fst (reflect_circle ((10, 10), 1) ''Z''
       \<lparr>origin = Some (400, 300), width = 800, height = 600, items = [],
        lines = [((0, 0), (1, 1))], circles = [((10, 10), 1)]\<rparr>) = None
   \<and> reflect_popup (Some ''Z'')
       \<lparr>origin = Some (400, 300), width = 800, height = 600, items = [],
        lines = [((0, 0), (1, 1))], circles = [((10, 10), 1)]\<rparr>
     = Some (Inr \<lparr>origin = Some (400, 300), width = 800, height = 600, items = [],
                  lines = [((0, 0), (1, 1))], circles = [((10, 10), 1)]\<rparr>)"
proof -
  have h: "''Z'' \<notin> {''X'', ''Y'', ''XY''}" by simp
  from reflect_invalid_axis_none [OF h, of "((0, 0), (1, 1))"
      "\<lparr>origin = Some (400, 300), width = 800, height = 600, items = [],
        lines = [((0, 0), (1, 1))], circles = [((10, 10), 1)]\<rparr>" "((10, 10), 1)"] h
  show ?thesis by simp
qed




section \<open>Rounding to the nearest double\<close>

lemma overflow_threshold_pos: "0 < overflow_threshold"
  by (simp add: overflow_threshold_def)

lemma py_round_mono: "x \<le> y \<Longrightarrow> py_round x \<le> py_round y"
proof -
  assume xy: "x \<le> y"
  have fx: "\<lfloor>x\<rfloor> \<le> \<lfloor>y\<rfloor>" using xy by (rule floor_mono)
  have bx: "py_round x \<le> \<lfloor>x\<rfloor> + 1" "\<lfloor>y\<rfloor> \<le> py_round y"
    by (simp_all add: py_round_def Let_def)
  show ?thesis
  proof (cases "\<lfloor>x\<rfloor> < \<lfloor>y\<rfloor>")
    case True
    with bx show ?thesis by linarith
  next
    case False
    with fx have eq: "\<lfloor>x\<rfloor> = \<lfloor>y\<rfloor>" by simp
    with xy show ?thesis
      by (auto simp add: py_round_def Let_def)
  qed
qed

lemma py_round_minus: "py_round (- x) = - py_round x"
proof (cases "x \<in> \<int>")
  case True
  then obtain n where "x = of_int n" by (auto elim: Ints_cases)
  then show ?thesis using py_round_of_int [of "- n"] py_round_of_int [of n] by simp
next
  case False
  then have "x \<noteq> of_int \<lfloor>x\<rfloor>" by (metis Ints_of_int)
  then have "\<lceil>x\<rceil> = \<lfloor>x\<rfloor> + 1" by (simp add: ceiling_altdef)
  then have f: "\<lfloor>- x\<rfloor> = - \<lfloor>x\<rfloor> - 1"
    using ceiling_def [of x] by simp
  show ?thesis
    unfolding py_round_def Let_def f
    by (auto simp add: algebra_simps)
qed

lemma ulp_pos: "0 < ulp x"
  by (simp add: ulp_def)

lemma binade_abs: "binade (- x) = binade x"
  by (simp add: binade_def)

lemma rd_minus: "rd (- x) = - rd x"
  by (simp add: rd_def ulp_def binade_abs py_round_minus)

lemma rd_0: "rd 0 = 0"
  by (simp add: rd_def)

lemma rd_nonneg: "0 \<le> x \<Longrightarrow> 0 \<le> rd x"
proof -
  assume "0 \<le> x"
  then have "0 \<le> x / ulp x" using ulp_pos [of x] by simp
  from py_round_mono [OF this] have "0 \<le> py_round (x / ulp x)"
    using py_round_of_int [of 0] by simp
  then show ?thesis using ulp_pos [of x] by (simp add: rd_def)
qed

text \<open>The binade of a nonzero number contains it, unless the number is subnormal.\<close>

lemma binade_bounds:
  assumes "x \<noteq> 0"
  shows "\<bar>x\<bar> < 2 powi (binade x + 1)"
    and "- 1022 < binade x \<Longrightarrow> 2 powi (binade x) \<le> \<bar>x\<bar>"
proof -
  define k where "k = \<lfloor>log 2 \<bar>x\<bar>\<rfloor>"
  from assms have pos: "0 < \<bar>x\<bar>" by simp
  have "2 powr (of_int k) \<le> \<bar>x\<bar> \<and> \<bar>x\<bar> < 2 powr (of_int k + 1)"
    using floor_log_eq_powr_iff [of "\<bar>x\<bar>" 2 k] pos by (simp add: k_def)
  then have k: "2 powi k \<le> \<bar>x\<bar>" "\<bar>x\<bar> < 2 powi (k + 1)"
    using powr_real_of_int' [of 2 k] powr_real_of_int' [of 2 "k + 1"] by simp_all
  have b: "binade x = max k (- 1022)" by (simp add: binade_def k_def)
  have "(2::real) powi (k + 1) \<le> 2 powi (binade x + 1)"
    unfolding b by (rule power_int_increasing) simp_all
  with k(2) show "\<bar>x\<bar> < 2 powi (binade x + 1)" by simp
  assume "- 1022 < binade x"
  with b have "binade x = k" by simp
  with k(1) show "2 powi (binade x) \<le> \<bar>x\<bar>" by simp
qed

lemma binade_ge: "- 1022 \<le> binade x"
  by (simp add: binade_def)

lemma binade_mono:
  assumes "0 < \<bar>x\<bar>" "\<bar>x\<bar> \<le> \<bar>y\<bar>"
  shows "binade x \<le> binade y"
proof -
  have "log 2 \<bar>x\<bar> \<le> log 2 \<bar>y\<bar>" using assms by simp
  then have "\<lfloor>log 2 \<bar>x\<bar>\<rfloor> \<le> \<lfloor>log 2 \<bar>y\<bar>\<rfloor>" by (rule floor_mono)
  then show ?thesis by (simp add: binade_def)
qed

lemma binade_eq:
  assumes "2 powi e \<le> \<bar>x\<bar>" "\<bar>x\<bar> < 2 powi (e + 1)" "- 1022 \<le> e"
  shows "binade x = e"
proof -
  from assms(1) have pos: "0 < \<bar>x\<bar>"
    using zero_less_power_int [of "2::real" e] by linarith
  have "\<lfloor>log 2 \<bar>x\<bar>\<rfloor> = e"
    using assms(1,2) pos powr_real_of_int' [of 2 e] powr_real_of_int' [of 2 "e + 1"]
    by (simp add: floor_log_eq_powr_iff)
  with assms(3) show ?thesis by (simp add: binade_def)
qed

lemma binade_subnormal:
  assumes "x \<noteq> 0" "\<bar>x\<bar> < 2 powi (- 1021)"
  shows "binade x = - 1022"
proof (rule ccontr)
  assume "binade x \<noteq> - 1022"
  with binade_ge [of x] have n: "- 1022 < binade x" by simp
  then have "(2::real) powi (- 1021) \<le> 2 powi (binade x)"
    by (intro power_int_increasing) simp_all
  with binade_bounds(2) [OF assms(1) n] assms(2) show False by simp
qed

lemma ulp_scale: "ulp x * 2 powi n = 2 powi (binade x - 52 + n)"
  by (simp add: ulp_def power_int_add)

lemma ulp_53: "ulp x * 2 powi 53 = 2 powi (binade x + 1)"
proof -
  have "binade x - 52 + 53 = binade x + 1" by simp
  with ulp_scale [of x 53] show ?thesis by (simp only:)
qed

lemma ulp_52: "ulp x * 2 powi 52 = 2 powi (binade x)"
proof -
  have "binade x - 52 + 52 = binade x" by simp
  with ulp_scale [of x 52] show ?thesis by (simp only:)
qed

lemma two_powi_53: "(2::real) powi 53 = of_int (2 ^ 53)" "(2::real) powi 52 = of_int (2 ^ 52)"
  by simp_all

text \<open>The integer significand has at most 53 bits, and exactly 53 for a normal number.\<close>

lemma significand_bounds:
  assumes "0 < x"
  shows "py_round (x / ulp x) \<le> 2 ^ 53"
    and "- 1022 < binade x \<Longrightarrow> 2 ^ 52 \<le> py_round (x / ulp x)"
proof -
  from assms have nz: "x \<noteq> 0" and ab: "\<bar>x\<bar> = x" by simp_all
  have "x < ulp x * 2 powi 53"
    using binade_bounds(1) [OF nz] unfolding ab ulp_53 .
  then have "x / ulp x \<le> 2 powi 53"
    using ulp_pos [of x] by (simp add: field_simps del: power_int_numeral)
  then have "x / ulp x \<le> of_int (2 ^ 53)" unfolding two_powi_53 .
  from py_round_mono [OF this] show "py_round (x / ulp x) \<le> 2 ^ 53"
    by (simp only: py_round_of_int)
  assume "- 1022 < binade x"
  from binade_bounds(2) [OF nz this] have "ulp x * 2 powi 52 \<le> x"
    unfolding ab ulp_52 .
  then have "2 powi 52 \<le> x / ulp x"
    using ulp_pos [of x] by (simp add: field_simps del: power_int_numeral)
  then have "of_int (2 ^ 52) \<le> x / ulp x" unfolding two_powi_53 .
  from py_round_mono [OF this] show "2 ^ 52 \<le> py_round (x / ulp x)"
    by (simp only: py_round_of_int)
qed

lemma rd_bounds:
  assumes "0 < x"
  shows "rd x \<le> 2 powi (binade x + 1)"
    and "- 1022 < binade x \<Longrightarrow> 2 powi (binade x) \<le> rd x"
proof -
  from assms have r: "rd x = of_int (py_round (x / ulp x)) * ulp x" by (simp add: rd_def)
  have "real_of_int (py_round (x / ulp x)) \<le> of_int (2 ^ 53)"
    using significand_bounds(1) [OF assms] by (simp only: of_int_le_iff)
  then have "real_of_int (py_round (x / ulp x)) \<le> 2 powi 53" unfolding two_powi_53 .
  then have "real_of_int (py_round (x / ulp x)) * ulp x \<le> 2 powi 53 * ulp x"
    using ulp_pos [of x] by (rule mult_right_mono [OF _ less_imp_le])
  also have "2 powi 53 * ulp x = 2 powi (binade x + 1)"
    using ulp_53 [of x] by (simp only: mult.commute)
  finally show "rd x \<le> 2 powi (binade x + 1)" by (simp only: r)
  assume n: "- 1022 < binade x"
  have "of_int (2 ^ 52) \<le> real_of_int (py_round (x / ulp x))"
    using significand_bounds(2) [OF assms n] by (simp only: of_int_le_iff)
  then have "2 powi 52 \<le> real_of_int (py_round (x / ulp x))" unfolding two_powi_53 .
  then have "2 powi 52 * ulp x \<le> real_of_int (py_round (x / ulp x)) * ulp x"
    using ulp_pos [of x] by (rule mult_right_mono [OF _ less_imp_le])
  moreover have "2 powi 52 * ulp x = 2 powi (binade x)"
    using ulp_52 [of x] by (simp only: mult.commute)
  ultimately show "2 powi (binade x) \<le> rd x" by (simp only: r)
qed

text \<open>Rounding is monotone.\<close>

lemma rd_mono_pos:
  assumes "0 < x" "x \<le> y"
  shows "rd x \<le> rd y"
proof -
  from assms have y: "0 < y" by simp
  have bm: "binade x \<le> binade y" using binade_mono [of x y] assms by simp
  show ?thesis
  proof (cases "binade x = binade y")
    case True
    then have u: "ulp x = ulp y" by (simp add: ulp_def)
    have "x / ulp y \<le> y / ulp y" using assms(2) ulp_pos [of y] by (simp add: divide_right_mono)
    from py_round_mono [OF this]
    have "real_of_int (py_round (x / ulp y)) * ulp y \<le> real_of_int (py_round (y / ulp y)) * ulp y"
      using ulp_pos [of y] by (simp only: mult_le_cancel_right) simp
    then show ?thesis using assms(1) y by (simp add: rd_def u)
  next
    case False
    with bm have lt: "binade x + 1 \<le> binade y" by simp
    with binade_ge [of x] have n: "- 1022 < binade y" by linarith
    have "rd x \<le> 2 powi (binade x + 1)" by (rule rd_bounds(1) [OF assms(1)])
    also have "\<dots> \<le> 2 powi (binade y)" using lt by (intro power_int_increasing) simp_all
    also have "\<dots> \<le> rd y" by (rule rd_bounds(2) [OF y n])
    finally show ?thesis .
  qed
qed

lemma rd_mono: "x \<le> y \<Longrightarrow> rd x \<le> rd y"
proof -
  assume xy: "x \<le> y"
  consider "0 < x" | "x \<le> 0" "0 \<le> y" | "y < 0" by linarith
  then show ?thesis
  proof cases
    case 1
    then show ?thesis using xy by (rule rd_mono_pos)
  next
    case 2
    have "rd x \<le> 0" using rd_nonneg [of "- x"] 2(1) by (simp add: rd_minus)
    moreover have "0 \<le> rd y" using 2(2) by (rule rd_nonneg)
    ultimately show ?thesis by simp
  next
    case 3
    then have "0 < - y" "- y \<le> - x" using xy by simp_all
    from rd_mono_pos [OF this] show ?thesis by (simp add: rd_minus)
  qed
qed

text \<open>Rounding at a known binade, for evaluation.\<close>

lemma rd_eval:
  assumes "2 powi e \<le> \<bar>x\<bar>" "\<bar>x\<bar> < 2 powi (e + 1)" "- 1022 \<le> e"
  shows "rd x = of_int (py_round (x / 2 powi (e - 52))) * 2 powi (e - 52)"
proof -
  from assms(1) have "0 < \<bar>x\<bar>"
    using zero_less_power_int [of "2::real" e] by linarith
  then have "x \<noteq> 0" by simp
  then show ?thesis using binade_eq [OF assms] by (simp add: rd_def ulp_def)
qed

lemma rd_exact:
  assumes "x / ulp x \<in> \<int>"
  shows "rd x = x"
proof (cases "x = 0")
  case False
  from assms obtain k where k: "x / ulp x = of_int k" by (auto elim: Ints_cases)
  then have "x = of_int k * ulp x" using ulp_pos [of x] by (simp add: field_simps)
  with False k show ?thesis by (simp add: rd_def py_round_of_int)
qed (simp add: rd_0)

lemma powi_split: "(2::real) powi a = 2 powi (a - n) * 2 powi n"
  by (simp add: power_int_add [symmetric])

text \<open>A rounded number is a double: rounding it again changes nothing.\<close>

lemma rd_idem_pos:
  assumes "0 < x"
  shows "rd (rd x) = rd x"
proof -
  define v where "v = rd x"
  have v0: "0 \<le> v" unfolding v_def using assms by (intro rd_nonneg) simp
  have up: "v \<le> 2 powi (binade x + 1)" unfolding v_def by (rule rd_bounds(1) [OF assms])
  have r: "v = of_int (py_round (x / ulp x)) * ulp x" using assms by (simp add: v_def rd_def)
  show ?thesis
  proof (cases "v = 0")
    case True
    then show ?thesis by (simp add: v_def [symmetric] rd_0)
  next
    case nz: False
    show ?thesis
    proof (cases "v = 2 powi (binade x + 1)")
      case True
      have b: "binade v = binade x + 1"
        using binade_ge [of x] by (intro binade_eq) (simp_all add: True power_int_add)
      have "ulp v = 2 powi (binade x + 1 - 52)" by (simp only: ulp_def b)
      with powi_split [of "binade x + 1" 52] have "v = ulp v * 2 powi 52"
        by (simp only: True)
      then have "v / ulp v = 2 powi 52"
        using ulp_pos [of v] by (metis less_irrefl nonzero_mult_div_cancel_left)
      then have "v / ulp v \<in> \<int>" by simp
      from rd_exact [OF this] show ?thesis by (simp add: v_def)
    next
      case False
      with up have lt: "v < 2 powi (binade x + 1)" by simp
      have b: "binade v = binade x"
      proof (cases "- 1022 < binade x")
        case True
        from rd_bounds(2) [OF assms True] have "2 powi (binade x) \<le> v" by (simp add: v_def)
        with lt v0 binade_ge [of x] show ?thesis by (intro binade_eq) simp_all
      next
        case False
        with binade_ge [of x] have e: "binade x = - 1022" by simp
        with lt v0 nz show ?thesis by (simp add: binade_subnormal)
      qed
      have "v / ulp v = of_int (py_round (x / ulp x))"
        using ulp_pos [of x] by (simp add: ulp_def b) (simp add: r ulp_def)
      then have "v / ulp v \<in> \<int>" by simp
      from rd_exact [OF this] show ?thesis by (simp add: v_def)
    qed
  qed
qed

lemma rd_idem: "rd (rd x) = rd x"
proof -
  consider "0 < x" | "x = 0" | "0 < - x" by linarith
  then show ?thesis
  proof cases
    case 1 then show ?thesis by (rule rd_idem_pos)
  next
    case 2 then show ?thesis by (simp add: rd_0)
  next
    case 3
    from rd_idem_pos [OF this] show ?thesis by (simp add: rd_minus)
  qed
qed

lemma rd_1: "rd 1 = 1"
  by (subst rd_eval [where e = 0]) (simp_all add: power_int_minus py_round_def)

text \<open>Integers below \<open>2 ^ 53\<close> in magnitude are doubles.\<close>

lemma rd_of_int:
  assumes "\<bar>n\<bar> < 2 ^ 53"
  shows "rd (of_int n) = of_int n"
proof (cases "n = 0")
  case True then show ?thesis by (simp add: rd_0)
next
  case False
  define x :: real where "x = of_int n"
  have x1: "1 \<le> \<bar>x\<bar>" using False by (simp add: x_def flip: of_int_abs)
  have x2: "\<bar>x\<bar> < 2 powr 53"
  proof -
    have "real_of_int \<bar>n\<bar> < real_of_int (2 ^ 53)" using assms by (simp only: of_int_less_iff)
    then show ?thesis by (simp add: x_def)
  qed
  have "0 \<le> log 2 \<bar>x\<bar>" using x1 by simp
  then have lo: "0 \<le> \<lfloor>log 2 \<bar>x\<bar>\<rfloor>" by simp
  have "log 2 \<bar>x\<bar> < 53" using x1 x2 by (simp add: log_less_iff)
  then have hi: "\<lfloor>log 2 \<bar>x\<bar>\<rfloor> \<le> 52" by (simp add: floor_le_iff)
  define k where "k = nat (52 - binade x)"
  have b: "0 \<le> binade x" "binade x \<le> 52" using lo hi by (simp_all add: binade_def)
  then have "binade x - 52 = - int k" by (simp add: k_def)
  then have "ulp x = 1 / 2 ^ k" by (simp add: ulp_def power_int_minus divide_inverse)
  then have "x / ulp x = of_int (n * 2 ^ k)" by (simp add: x_def)
  then have "x / ulp x \<in> \<int>" by (simp only: Ints_of_int)
  from rd_exact [OF this] show ?thesis by (simp add: x_def)
qed

section \<open>Operations on floats\<close>

lemma round_double_finite: "\<bar>rd x\<bar> < overflow_threshold \<Longrightarrow> round_double x = Fin (rd x)"
  by (auto simp add: round_double_def Let_def)

lemma round_double_eval:
  assumes "2 powi e \<le> \<bar>x\<bar>" "\<bar>x\<bar> < 2 powi (e + 1)" "- 1022 \<le> e"
    and "of_int (py_round (x / 2 powi (e - 52))) * 2 powi (e - 52) = v"
    and "\<bar>v\<bar> < 2 ^ 1024"
  shows "round_double x = Fin v"
  using rd_eval [OF assms(1-3)] assms(4,5)
  by (auto simp add: round_double_def Let_def overflow_threshold_def)

lemma round_double_0: "round_double 0 = Fin 0"
  using overflow_threshold_pos by (simp add: round_double_def rd_0)

lemma round_double_of_int:
  assumes "\<bar>n\<bar> < 2 ^ 53"
  shows "round_double (of_int n) = Fin (of_int n)"
proof -
  have "real_of_int \<bar>n\<bar> < real_of_int (2 ^ 53)" using assms by (simp only: of_int_less_iff)
  then have "\<bar>real_of_int n\<bar> < overflow_threshold"
    by (simp add: overflow_threshold_def)
  then show ?thesis using rd_of_int [OF assms] by (simp add: round_double_finite)
qed

lemma round_double_numeral:
  "numeral k < (2::int) ^ 53 \<Longrightarrow> round_double (numeral k) = Fin (numeral k)"
  "numeral k < (2::int) ^ 53 \<Longrightarrow> round_double (- numeral k) = Fin (- numeral k)"
  "round_double 1 = Fin 1"
  using round_double_of_int [of "numeral k"] round_double_of_int [of "- numeral k"]
    round_double_of_int [of 1]
  by simp_all

lemma round_double_nonneg: "0 \<le> x \<Longrightarrow> \<not> f_lt (round_double x) (Fin 0)"
  using rd_nonneg [of x] overflow_threshold_pos by (auto simp add: round_double_def Let_def)

lemma round_double_nonpos: "x \<le> 0 \<Longrightarrow> \<not> f_lt (Fin 0) (round_double x)"
  using rd_nonneg [of "- x"] overflow_threshold_pos
  by (auto simp add: round_double_def Let_def rd_minus)

lemma round_double_ge_1: "1 \<le> x \<Longrightarrow> \<not> f_lt (round_double x) (Fin 1)"
  using rd_mono [of 1 x] overflow_threshold_pos
  by (auto simp add: round_double_def Let_def rd_1)

lemma is_double_rd: "is_double x \<Longrightarrow> rd x = x"
  by (auto simp add: is_double_def round_double_def Let_def split: if_splits)

lemma py_max_f_zero:
  "\<forall>x \<in> set xs. \<not> f_lt (Fin 0) x \<Longrightarrow> py_max_f (Fin 0 # xs) = Fin 0"
proof -
  assume a: "\<forall>x \<in> set xs. \<not> f_lt (Fin 0) x"
  then have "fold (\<lambda>x m. if f_gt x m then x else m) xs (Fin 0) = Fin 0"
    by (induction xs) (simp_all add: f_gt_def)
  then show ?thesis by (simp add: py_max_f_def)
qed

lemma py_min_f_one:
  "\<forall>x \<in> set xs. \<not> f_lt x (Fin 1) \<Longrightarrow> py_min_f (Fin 1 # xs) = Fin 1"
proof -
  assume a: "\<forall>x \<in> set xs. \<not> f_lt x (Fin 1)"
  then have "fold (\<lambda>x m. if f_lt x m then x else m) xs (Fin 1) = Fin 1"
    by (induction xs) simp_all
  then show ?thesis by (simp add: py_min_f_def)
qed

text \<open>Differences of values inside an interval whose width does not overflow.\<close>

lemma f_sub_inside:
  assumes "lo \<le> a" "a \<le> hi" "lo \<le> b" "b \<le> hi" and w: "rd (hi - lo) < overflow_threshold"
  shows "f_sub (Fin b) (Fin a) = Fin (rd (b - a))" and "\<bar>rd (b - a)\<bar> < overflow_threshold"
proof -
  have le: "b - a \<le> hi - lo" "- (hi - lo) \<le> b - a" using assms by simp_all
  have "rd (b - a) \<le> rd (hi - lo)" by (rule rd_mono [OF le(1)])
  moreover have "rd (- (hi - lo)) \<le> rd (b - a)" by (rule rd_mono [OF le(2)])
  then have "- rd (hi - lo) \<le> rd (b - a)" by (simp only: rd_minus)
  ultimately show "\<bar>rd (b - a)\<bar> < overflow_threshold" using w by linarith
  then show "f_sub (Fin b) (Fin a) = Fin (rd (b - a))"
    by (simp add: f_sub_def round_double_finite)
qed

lemma f_div_nonpos:
  assumes "0 \<le> q" "p < 0"
  shows "\<exists>r. f_div (Fin q) (Fin p) = Inr r \<and> \<not> f_lt (Fin 0) r"
proof -
  have "q / p \<le> 0" using assms by (simp add: divide_nonneg_neg)
  from round_double_nonpos [OF this] assms(2) show ?thesis by simp
qed

lemma f_div_ge_1:
  assumes "p \<le> q" "0 < p"
  shows "\<exists>r. f_div (Fin q) (Fin p) = Inr r \<and> \<not> f_lt r (Fin 1)"
proof -
  have "1 \<le> q / p" using assms by simp
  from round_double_ge_1 [OF this] assms(2) show ?thesis by simp
qed

section \<open>Liang-Barsky in double arithmetic\<close>

text \<open>
  For a segment inside the window, rounding cannot move an entering parameter above 0
  or a leaving parameter below 1, because rounding is monotone and 0 and 1 are doubles.
\<close>

lemma lb_axis_f_inside:
  assumes b: "lo \<le> a" "a \<le> hi" "lo \<le> b" "b \<le> hi" and w: "rd (hi - lo) < overflow_threshold"
  shows "f_sub (Fin b) (Fin a) = Fin (rd (b - a))"
    and "\<not> f_lt (f_sub (Fin a) (Fin lo)) (Fin 0)"
    and "\<not> f_lt (f_sub (Fin hi) (Fin a)) (Fin 0)"
    and "\<exists>en ep. lb_axis_f (Fin (- rd (b - a))) (Fin (rd (b - a)))
                   (f_sub (Fin a) (Fin lo)) (f_sub (Fin hi) (Fin a)) (n, p)
                 = Inr (n @ en, p @ ep)
              \<and> (\<forall>x \<in> set en. \<not> f_lt (Fin 0) x) \<and> (\<forall>x \<in> set ep. \<not> f_lt x (Fin 1))"
proof -
  define d where "d = rd (b - a)"
  define ql where "ql = rd (a - lo)"
  define qh where "qh = rd (hi - a)"
  have lohi: "lo \<le> hi" using b by simp
  show sd: "f_sub (Fin b) (Fin a) = Fin (rd (b - a))"
    using f_sub_inside(1) [OF b w] .
  have sl: "f_sub (Fin a) (Fin lo) = Fin ql"
    using f_sub_inside(1) [OF order_refl lohi b(1,2) w] by (simp add: ql_def)
  have sh: "f_sub (Fin hi) (Fin a) = Fin qh"
    using f_sub_inside(1) [OF b(1,2) lohi order_refl w] by (simp add: qh_def)
  have ql0: "0 \<le> ql" unfolding ql_def using b by (intro rd_nonneg) simp
  have qh0: "0 \<le> qh" unfolding qh_def using b by (intro rd_nonneg) simp
  show "\<not> f_lt (f_sub (Fin a) (Fin lo)) (Fin 0)" using ql0 by (simp add: sl)
  show "\<not> f_lt (f_sub (Fin hi) (Fin a)) (Fin 0)" using qh0 by (simp add: sh)
  have dqh: "d \<le> qh" unfolding d_def qh_def using b by (intro rd_mono) simp
  have "rd (a - b) \<le> rd (a - lo)" using b by (intro rd_mono) simp
  moreover have "rd (a - b) = - d" using rd_minus [of "b - a"] by (simp add: d_def)
  ultimately have dql: "- d \<le> ql" by (simp add: ql_def)
  consider "d = 0" | "0 < d" | "d < 0" by linarith
  then have "\<exists>en ep. lb_axis_f (Fin (- d)) (Fin d) (Fin ql) (Fin qh) (n, p) = Inr (n @ en, p @ ep)
              \<and> (\<forall>x \<in> set en. \<not> f_lt (Fin 0) x) \<and> (\<forall>x \<in> set ep. \<not> f_lt x (Fin 1))"
  proof cases
    case 1
    then have "lb_axis_f (Fin (- d)) (Fin d) (Fin ql) (Fin qh) (n, p) = Inr (n @ [], p @ [])"
      by (simp add: lb_axis_f_def f_eq_def)
    then show ?thesis by (metis empty_iff list.set(1))
  next
    case 2
    from f_div_nonpos [of ql "- d"] ql0 2 obtain ra where
      ra: "f_div (Fin ql) (Fin (- d)) = Inr ra" "\<not> f_lt (Fin 0) ra" by auto
    from f_div_ge_1 [OF dqh 2] obtain rb where
      rb: "f_div (Fin qh) (Fin d) = Inr rb" "\<not> f_lt rb (Fin 1)" by auto
    from 2 ra(1) rb(1)
    have "lb_axis_f (Fin (- d)) (Fin d) (Fin ql) (Fin qh) (n, p) = Inr (n @ [ra], p @ [rb])"
      by (simp add: lb_axis_f_def f_eq_def)
    with ra(2) rb(2) show ?thesis by auto
  next
    case 3
    then have nd: "0 < - d" by simp
    from f_div_ge_1 [OF dql nd] obtain ra where
      ra: "f_div (Fin ql) (Fin (- d)) = Inr ra" "\<not> f_lt ra (Fin 1)" by auto
    from f_div_nonpos [OF qh0 3] obtain rb where
      rb: "f_div (Fin qh) (Fin d) = Inr rb" "\<not> f_lt (Fin 0) rb" by auto
    from 3 ra(1) rb(1)
    have "lb_axis_f (Fin (- d)) (Fin d) (Fin ql) (Fin qh) (n, p) = Inr (n @ [rb], p @ [ra])"
      by (simp add: lb_axis_f_def f_eq_def)
    with ra(2) rb(2) show ?thesis by auto
  qed
  then show "\<exists>en ep. lb_axis_f (Fin (- rd (b - a))) (Fin (rd (b - a)))
                   (f_sub (Fin a) (Fin lo)) (f_sub (Fin hi) (Fin a)) (n, p)
                 = Inr (n @ en, p @ ep)
              \<and> (\<forall>x \<in> set en. \<not> f_lt (Fin 0) x) \<and> (\<forall>x \<in> set ep. \<not> f_lt x (Fin 1))"
    by (simp add: sl sh d_def)
qed

lemma lb_f_inside:
  assumes dbl: "is_double x1" "is_double y1"
    and bx: "xmin \<le> x1" "x1 \<le> xmax" "xmin \<le> x2" "x2 \<le> xmax"
    and bdy: "ymin \<le> y1" "y1 \<le> ymax" "ymin \<le> y2" "y2 \<le> ymax"
    and w: "rd (xmax - xmin) < overflow_threshold" "rd (ymax - ymin) < overflow_threshold"
  shows "clipping_liang_barsky_f (Fin x1) (Fin y1) (Fin x2) (Fin y2)
           (Fin xmin) (Fin ymin) (Fin xmax) (Fin ymax)
         = Inr (True, Some ((Fin x1, Fin y1),
                            (round_double (x1 + rd (x2 - x1)), round_double (y1 + rd (y2 - y1)))))"
proof -
  define dx where "dx = rd (x2 - x1)"
  define dy where "dy = rd (y2 - y1)"
  note ax = lb_axis_f_inside [OF bx w(1)]
  note ay = lb_axis_f_inside [OF bdy w(2)]
  from ax(4) [of "[Fin 0]" "[Fin 1]"] obtain en1 ep1 where
    a1: "lb_axis_f (Fin (- dx)) (Fin dx) (f_sub (Fin x1) (Fin xmin)) (f_sub (Fin xmax) (Fin x1))
           ([Fin 0], [Fin 1]) = Inr (Fin 0 # en1, Fin 1 # ep1)"
    and e1: "\<forall>x \<in> set en1. \<not> f_lt (Fin 0) x" "\<forall>x \<in> set ep1. \<not> f_lt x (Fin 1)"
    unfolding dx_def by auto
  from ay(4) [of "Fin 0 # en1" "Fin 1 # ep1"] obtain en2 ep2 where
    a2: "lb_axis_f (Fin (- dy)) (Fin dy) (f_sub (Fin y1) (Fin ymin)) (f_sub (Fin ymax) (Fin y1))
           (Fin 0 # en1, Fin 1 # ep1) = Inr (Fin 0 # en1 @ en2, Fin 1 # ep1 @ ep2)"
    and e2: "\<forall>x \<in> set en2. \<not> f_lt (Fin 0) x" "\<forall>x \<in> set ep2. \<not> f_lt x (Fin 1)"
    unfolding dy_def by auto
  have rn1: "py_max_f (Fin 0 # en1 @ en2) = Fin 0"
    using py_max_f_zero [of "en1 @ en2"] e1 e2 by auto
  have rn2: "py_min_f (Fin 1 # ep1 @ ep2) = Fin 1"
    using py_min_f_one [of "ep1 @ ep2"] e1 e2 by auto
  have fx: "\<bar>dx\<bar> < overflow_threshold" unfolding dx_def by (rule f_sub_inside(2) [OF bx w(1)])
  have fy: "\<bar>dy\<bar> < overflow_threshold" unfolding dy_def by (rule f_sub_inside(2) [OF bdy w(2)])
  have idx: "round_double dx = Fin dx"
    using fx by (simp add: round_double_finite dx_def rd_idem)
  have idy: "round_double dy = Fin dy"
    using fy by (simp add: round_double_finite dy_def rd_idem)
  have x1: "round_double x1 = Fin x1" and y1: "round_double y1 = Fin y1"
    using dbl by (simp_all add: is_double_def)
  show ?thesis
    unfolding clipping_liang_barsky_f_def Let_def ax(1) ay(1) f_neg.simps
    using ax(2,3) ay(2,3)
    by (simp add: a1 [unfolded dx_def] a2 [unfolded dy_def] rn1 rn2 f_gt_def round_double_0
        idx [unfolded dx_def] idy [unfolded dy_def] x1 y1)
qed

lemmas lb_f_defs = clipping_liang_barsky_f_def lb_axis_f_def py_max_f_def py_min_f_def
  f_sub_def f_eq_def f_gt_def

section \<open>Cohen-Sutherland in double arithmetic\<close>

lemma not_outside_within:
  "\<not> f_lt x lo \<Longrightarrow> \<not> f_gt x hi \<Longrightarrow> lo \<noteq> NaN \<Longrightarrow> hi \<noteq> NaN \<Longrightarrow> number_within lo x hi"
  by (cases lo; cases x; cases hi) (auto simp add: number_within_def f_le_def f_eq_def f_gt_def)

lemma region_code_f_zero:
  assumes "region_code_f x y x_min x_max y_min y_max = 0"
    and "f_le x_min x_max" and "f_le y_min y_max"
  shows "number_within x_min x x_max \<and> number_within y_min y y_max"
proof -
  from assms(2,3) have n: "x_min \<noteq> NaN" "x_max \<noteq> NaN" "y_min \<noteq> NaN" "y_max \<noteq> NaN"
    by (auto simp add: f_le_def f_eq_def)
  from assms(1) have "\<not> f_lt x x_min" "\<not> f_gt x x_max" "\<not> f_lt y y_min" "\<not> f_gt y y_max"
    by (auto simp add: region_code_f_def code_defs split: if_splits)
  with n show ?thesis by (simp add: not_outside_within)
qed

lemma f_le_code: "f_le lo x \<Longrightarrow> f_le x hi \<Longrightarrow> \<not> f_lt x lo \<and> \<not> f_gt x hi"
  by (cases lo; cases x; cases hi) (auto simp add: f_le_def f_eq_def f_gt_def)

lemma in_window_f_code:
  "in_window_f (x_min, x_max, y_min, y_max) x y \<Longrightarrow> region_code_f x y x_min x_max y_min y_max = 0"
  using f_le_code [of x_min x x_max] f_le_code [of y_min y y_max]
  by (simp add: in_window_f_def region_code_f_def code_defs)

lemma cs_clip_f_inv:
  assumes "cs_clip_f w st = Inr st'" and "cs_inv_f w st"
    and "(code1_f st AND code2_f st) = 0" and "\<not> (code1_f st = 0 \<and> code2_f st = 0)"
  shows "cs_inv_f w st'"
proof -
  obtain x_min x_max y_min y_max where w: "w = (x_min, x_max, y_min, y_max)"
    by (cases w) auto
  define code_out where "code_out = (if code1_f st \<noteq> 0 then code1_f st else code2_f st)"
  from assms(1) obtain x y where xy: "cs_intersection_f w st code_out = Inr (x, y)"
    by (auto simp add: cs_clip_f_def w code_out_def Let_def split: sum.splits)
  show ?thesis
  proof (cases "code1_f st \<noteq> 0")
    case True
    then have co: "code_out = code1_f st" by (simp add: code_out_def)
    have c2: "line_accepted_f st \<Longrightarrow> code2_f st = 0"
      using assms(2) True by (auto simp add: cs_inv_f_def w)
    show ?thesis
      using assms(1,2) xy co c2 True
      by (auto simp add: cs_clip_f_def w code_out_def [symmetric] cs_inv_f_def Let_def
          in_window_f_code split: if_splits)
  next
    case False
    then have co: "code_out = code2_f st" "code_out \<noteq> code1_f st"
      using assms(4) by (auto simp add: code_out_def)
    show ?thesis
      using assms(1,2) xy co False
      by (auto simp add: cs_clip_f_def w code_out_def [symmetric] cs_inv_f_def Let_def
          in_window_f_code split: if_splits)
  qed
qed

lemma cs_loop_f_inv:
  assumes run: "cs_loop_f w st = Some r" and inv: "cs_inv_f w st"
  shows "cs_exit_f w r"
proof -
  have "cs_inv_f w st \<longrightarrow> cs_exit_f w r"
  proof (rule cs_loop_f.raw_induct [where P = "\<lambda>w st r. cs_inv_f w st \<longrightarrow> cs_exit_f w r"],
      goal_cases)
    case (1 f w st r)
    show ?case
    proof
      assume inv: "cs_inv_f w st"
      show "cs_exit_f w r"
      proof (cases "(code1_f st = 0 \<and> code2_f st = 0) \<or> (code1_f st AND code2_f st) \<noteq> 0")
        case True
        with 1(2) inv show ?thesis by (auto simp add: cs_exit_f_def)
      next
        case False
        show ?thesis
        proof (cases "cs_clip_f w st")
          case (Inl e)
          with False 1(2) show ?thesis by (auto simp add: cs_exit_f_def split: if_splits)
        next
          case (Inr st1)
          with False 1(2) have "f w st1 = Some r" by (auto split: if_splits)
          moreover have "cs_inv_f w st1" using cs_clip_f_inv [OF Inr inv] False by simp
          ultimately show ?thesis using 1(1) by blast
        qed
      qed
    qed
  next
    case 2
    show ?case by (rule run)
  qed
  with inv show ?thesis by simp
qed

lemma cs_f_accept_in_window:
  assumes "clipping_cohen_sutherland_f x1 y1 x2 y2 (xmin, ymin) (xmax, ymax)
             = Some (Inr (True, seg))"
    and w: "f_le xmin xmax" "f_le ymin ymax"
  shows "\<exists>a b c d. seg = Some ((a, b), (c, d))
           \<and> number_within xmin a xmax \<and> number_within ymin b ymax
           \<and> number_within xmin c xmax \<and> number_within ymin d ymax"
proof -
  let ?w = "(xmin, xmax, ymin, ymax)"
  let ?st0 = "\<lparr>x_initial_f = x1, y_initial_f = y1, x_final_f = x2, y_final_f = y2,
      code1_f = region_code_f x1 y1 xmin xmax ymin ymax,
      code2_f = region_code_f x2 y2 xmin xmax ymin ymax,
      line_accepted_f = False\<rparr>"
  from assms(1) obtain st where run: "cs_loop_f ?w ?st0 = Some (Inr (True, st))"
    and acc: "line_accepted_f st"
    and seg: "seg = Some ((x_initial_f st, y_initial_f st), (x_final_f st, y_final_f st))"
    by (auto simp add: clipping_cohen_sutherland_f_def split: option.splits sum.splits if_splits)
  have "cs_inv_f ?w ?st0" by (simp add: cs_inv_f_def)
  from cs_loop_f_inv [OF run this]
  have inv: "cs_inv_f ?w st"
    and ex: "(code1_f st = 0 \<and> code2_f st = 0) \<or> (code1_f st AND code2_f st) \<noteq> 0"
    by (auto simp add: cs_exit_f_def)
  from inv acc have "code1_f st = 0 \<or> code2_f st = 0" by (auto simp add: cs_inv_f_def)
  with ex have z: "code1_f st = 0" "code2_f st = 0" by auto
  with inv have "region_code_f (x_initial_f st) (y_initial_f st) xmin xmax ymin ymax = 0"
    "region_code_f (x_final_f st) (y_final_f st) xmin xmax ymin ymax = 0"
    by (auto simp add: cs_inv_f_def)
  from region_code_f_zero [OF this(1) w] region_code_f_zero [OF this(2) w]
  show ?thesis by (simp add: seg)
qed

lemmas cs_f_defs = clipping_cohen_sutherland_f_def region_code_f_def code_defs cs_loop_f.simps
  cs_clip_f_def cs_intersection_f_def interpolate_f_def in_window_f_def
  f_sub_def f_eq_def f_gt_def f_le_def

text \<open>
  The disagreement of claim C1 is the same in double arithmetic: the segment from (0, 0)
  to (1, 1) inside the window (-5, -5), (5, 5) is rejected by Cohen-Sutherland and
  accepted unchanged by Liang-Barsky.
\<close>

lemma cs_lb_disagree_inside_double:
  "clipping_cohen_sutherland_f (Fin 0) (Fin 0) (Fin 1) (Fin 1) (Fin (- 5), Fin (- 5)) (Fin 5, Fin 5)
     = Some (Inr (False, None))
   \<and> clipping_liang_barsky_f (Fin 0) (Fin 0) (Fin 1) (Fin 1) (Fin (- 5)) (Fin (- 5)) (Fin 5) (Fin 5)
     = Inr (True, Some ((Fin 0, Fin 0), (Fin 1, Fin 1)))"
  by (simp add: cs_f_defs lb_f_defs round_double_numeral round_double_0 Let_def)

section \<open>Claims about clipping, in double arithmetic\<close>

text \<open>Doubles met in the evaluation of the first counterexample.\<close>

lemma r_032: "round_double (8 / 25) = Fin (5764607523034235 / 18014398509481984)"
  by (rule round_double_eval [where e = "- 2"]) (simp_all add: power_int_minus py_round_def)

lemma r_056: "round_double (14 / 25) = Fin (5044031582654956 / 9007199254740992)"
  by (rule round_double_eval [where e = "- 1"]) (simp_all add: power_int_minus py_round_def)

lemma r_8: "round_double (144115188075855875 / 18014398509481984) = Fin 8"
  by (rule round_double_eval [where e = 3]) (simp_all add: power_int_minus py_round_def)

lemma r_14a: "round_double (31525197391593475 / 2251799813685248)
                = Fin (7881299347898369 / 562949953421312)"
  by (rule round_double_eval [where e = 3]) (simp_all add: power_int_minus py_round_def)

lemma r_14b: "round_double (7881299347898369 / 562949953421312)
                = Fin (7881299347898369 / 562949953421312)"
  by (rule round_double_eval [where e = 3]) (simp_all add: power_int_minus py_round_def)

text \<open>
  Claim C4, as stated: whenever a clip call returns an accepted result, both returned
  endpoints lie within the window. For \<open>clipping_liang_barsky\<close> they need not: clipping
  the segment from (0, 5) to (25, 5) against the window (8, 3), (14, 9) gives the leaving
  parameter \<open>14 / 25\<close> rounded to a double, and \<open>0 + 25 * rn2\<close> rounds to the next double
  above 14, so the accepted segment ends at \<open>x = 14 + 2 ^ -49 > xmax\<close>.
\<close>

theorem lb_accepted_outside_window_counterexample:
  "(8 :: real) \<le> 14 \<and> (3 :: real) \<le> 9
   \<and> clipping_liang_barsky_f (Fin 0) (Fin 5) (Fin 25) (Fin 5) (Fin 8) (Fin 3) (Fin 14) (Fin 9)
       = Inr (True, Some ((Fin 8, Fin 5), (Fin (7881299347898369 / 562949953421312), Fin 5)))
   \<and> \<not> (7881299347898369 / 562949953421312 \<le> (14 :: real))"
  by (simp add: lb_f_defs round_double_numeral round_double_0 r_032 r_056 r_8 r_14a r_14b)

text \<open>
  Claim C4, amended. For a window with \<open>xmin \<le> xmax\<close> and \<open>ymin \<le> ymax\<close>: whenever
  \<open>clipping_cohen_sutherland\<close>, computing in doubles, returns an accepted result, the
  result carries a segment and every coordinate of its two endpoints that is a number
  satisfies \<open>xmin \<le> x \<le> xmax\<close> or \<open>ymin \<le> y \<le> ymax\<close>: the acceptance test compares the
  returned coordinates themselves with the bounds. For \<open>clipping_liang_barsky\<close> the
  bounds are not guaranteed, as the counterexample shows.
\<close>

theorem cs_accepted_in_window:
  assumes "f_le xmin xmax" and "f_le ymin ymax"
    and "clipping_cohen_sutherland_f x1 y1 x2 y2 (xmin, ymin) (xmax, ymax)
           = Some (Inr (True, seg))"
  shows "\<exists>a b c d. seg = Some ((a, b), (c, d))
           \<and> number_within xmin a xmax \<and> number_within ymin b ymax
           \<and> number_within xmin c xmax \<and> number_within ymin d ymax"
  using assms(3,1,2) by (rule cs_f_accept_in_window)

text \<open>
  The diagonal from (-10, -10) to (10, 10) against the window (-5, -5), (5, 5):
  Cohen-Sutherland in doubles accepts and returns the segment from (-5, -5) to (5, 5).
\<close>

theorem cs_accepted_in_window_witness:
  "f_le (Fin (- 5)) (Fin 5)
   \<and> clipping_cohen_sutherland_f (Fin (- 10)) (Fin (- 10)) (Fin 10) (Fin 10)
         (Fin (- 5), Fin (- 5)) (Fin 5, Fin 5)
       = Some (Inr (True, Some ((Fin (- 5), Fin (- 5)), (Fin 5, Fin 5))))
   \<and> number_within (Fin (- 5)) (Fin (- 5)) (Fin 5) \<and> number_within (Fin (- 5)) (Fin 5) (Fin 5)"
proof -
  have w: "f_le (Fin (- 5)) (Fin 5)" by (simp add: f_le_def)
  have cs: "clipping_cohen_sutherland_f (Fin (- 10)) (Fin (- 10)) (Fin 10) (Fin 10)
              (Fin (- 5), Fin (- 5)) (Fin 5, Fin 5)
            = Some (Inr (True, Some ((Fin (- 5), Fin (- 5)), (Fin 5, Fin 5))))"
    by (simp add: cs_f_defs round_double_numeral round_double_0)
  from cs_accepted_in_window [OF w w cs]
  have "number_within (Fin (- 5)) (Fin (- 5)) (Fin 5) \<and> number_within (Fin (- 5)) (Fin 5) (Fin 5)"
    by simp
  with w cs show ?thesis by simp
qed

text \<open>
  Claim C10, as stated: for a segment inside the window \<open>clipping_liang_barsky\<close> returns
  exactly the original endpoints. In doubles it need not: for the segment from (0.2, 0)
  to (0.9, 0) inside the window (0, 0), (5, 5), where 0.2 and 0.9 stand for the nearest
  doubles, the second endpoint is recomputed as \<open>x1 + (x2 - x1) * 1\<close> and comes back as
  the double just below 0.9.
\<close>

theorem lb_inside_endpoint_changed_counterexample:
  "(0 :: real) \<le> 3602879701896397 / 18014398509481984
   \<and> (8106479329266893 / 9007199254740992 :: real) \<le> 5
   \<and> clipping_liang_barsky_f
         (Fin (3602879701896397 / 18014398509481984)) (Fin 0)
         (Fin (8106479329266893 / 9007199254740992)) (Fin 0)
         (Fin 0) (Fin 0) (Fin 5) (Fin 5)
       = Inr (True, Some ((Fin (3602879701896397 / 18014398509481984), Fin 0),
                          (Fin (2026619832316723 / 2251799813685248), Fin 0)))
   \<and> (2026619832316723 / 2251799813685248 :: real) \<noteq> 8106479329266893 / 9007199254740992"
proof -
  have d1: "is_double (3602879701896397 / 18014398509481984)"
    unfolding is_double_def
    by (rule round_double_eval [where e = "- 3"]) (simp_all add: power_int_minus py_round_def)
  have d0: "is_double 0" by (simp add: is_double_def round_double_0)
  have w: "rd (5 - 0) < overflow_threshold"
    using rd_of_int [of 5] by (simp add: overflow_threshold_def)
  have dx: "rd (8106479329266893 / 9007199254740992 - 3602879701896397 / 18014398509481984)
              = 3152519739159347 / 4503599627370496"
    by (subst rd_eval [where e = "- 1"]) (simp_all add: power_int_minus py_round_def)
  have x2: "round_double (3602879701896397 / 18014398509481984
              + 3152519739159347 / 4503599627370496)
            = Fin (2026619832316723 / 2251799813685248)"
    by (rule round_double_eval [where e = "- 1"]) (simp_all add: power_int_minus py_round_def)
  from lb_f_inside [OF d1 d0, of 0 5 "8106479329266893 / 9007199254740992" 0 5 0] w
  have "clipping_liang_barsky_f
         (Fin (3602879701896397 / 18014398509481984)) (Fin 0)
         (Fin (8106479329266893 / 9007199254740992)) (Fin 0)
         (Fin 0) (Fin 0) (Fin 5) (Fin 5)
       = Inr (True, Some ((Fin (3602879701896397 / 18014398509481984), Fin 0),
            (round_double (3602879701896397 / 18014398509481984
               + rd (8106479329266893 / 9007199254740992 - 3602879701896397 / 18014398509481984)),
             round_double (0 + rd (0 - 0)))))"
    by simp
  then show ?thesis
    by (simp only: dx x2) (simp add: rd_0 round_double_0)
qed

text \<open>
  Claim C10, amended. For a segment with double coordinates both of whose endpoints lie
  within the window, the window's width and height not overflowing,
  \<open>clipping_liang_barsky\<close> returns \<open>accept = True\<close> (the entering parameter is 0 and the
  leaving parameter is 1) with the first endpoint exactly the original start point and
  the second endpoint \<open>x1 + (x2 - x1)\<close>, \<open>y1 + (y2 - y1)\<close> as evaluated in doubles. That is
  exactly the original end point in each coordinate whose difference \<open>x2 - x1\<close> or
  \<open>y2 - y1\<close> is itself a double, as it is for integer pixel coordinates.
\<close>

theorem lb_inside_double:
  assumes "is_double x1" and "is_double y1" and "is_double x2" and "is_double y2"
    and "xmin \<le> x1 \<and> x1 \<le> xmax \<and> ymin \<le> y1 \<and> y1 \<le> ymax"
    and "xmin \<le> x2 \<and> x2 \<le> xmax \<and> ymin \<le> y2 \<and> y2 \<le> ymax"
    and "f_sub (Fin xmax) (Fin xmin) \<noteq> PInf" and "f_sub (Fin ymax) (Fin ymin) \<noteq> PInf"
  shows "clipping_liang_barsky_f (Fin x1) (Fin y1) (Fin x2) (Fin y2)
           (Fin xmin) (Fin ymin) (Fin xmax) (Fin ymax)
         = Inr (True, Some ((Fin x1, Fin y1),
                            (f_add (Fin x1) (f_sub (Fin x2) (Fin x1)),
                             f_add (Fin y1) (f_sub (Fin y2) (Fin y1)))))
       \<and> (is_double (x2 - x1) \<longrightarrow> f_add (Fin x1) (f_sub (Fin x2) (Fin x1)) = Fin x2)
       \<and> (is_double (y2 - y1) \<longrightarrow> f_add (Fin y1) (f_sub (Fin y2) (Fin y1)) = Fin y2)"
proof -
  from assms(5,6) have bx: "xmin \<le> x1" "x1 \<le> xmax" "xmin \<le> x2" "x2 \<le> xmax"
    and bdy: "ymin \<le> y1" "y1 \<le> ymax" "ymin \<le> y2" "y2 \<le> ymax"
    by simp_all
  have w: "rd (xmax - xmin) < overflow_threshold" "rd (ymax - ymin) < overflow_threshold"
    using assms(7,8) by (auto simp add: f_sub_def round_double_def Let_def split: if_splits)
  have sx: "f_sub (Fin x2) (Fin x1) = Fin (rd (x2 - x1))" by (rule f_sub_inside(1) [OF bx w(1)])
  have sy: "f_sub (Fin y2) (Fin y1) = Fin (rd (y2 - y1))" by (rule f_sub_inside(1) [OF bdy w(2)])
  have ex: "is_double (x2 - x1) \<Longrightarrow> round_double (x1 + rd (x2 - x1)) = Fin x2"
    using assms(3) by (simp add: is_double_rd) (simp add: is_double_def)
  have ey: "is_double (y2 - y1) \<Longrightarrow> round_double (y1 + rd (y2 - y1)) = Fin y2"
    using assms(4) by (simp add: is_double_rd) (simp add: is_double_def)
  from lb_f_inside [OF assms(1,2) bx bdy w] ex ey show ?thesis
    by (simp add: sx sy)
qed

text \<open>
  Integer pixel coordinates: the segment from (0, 0) to (3, 5), which ends on the
  boundary, and the zero-length segment at the corner (5, 5).
\<close>

theorem lb_inside_double_witness:
  "is_double 0 \<and> is_double 3 \<and> is_double 5 \<and> is_double (3 - 0) \<and> is_double (5 - 0)
   \<and> f_sub (Fin 5) (Fin (- 5)) \<noteq> PInf
   \<and> clipping_liang_barsky_f (Fin 0) (Fin 0) (Fin 3) (Fin 5) (Fin (- 5)) (Fin (- 5)) (Fin 5) (Fin 5)
       = Inr (True, Some ((Fin 0, Fin 0), (Fin 3, Fin 5)))
   \<and> clipping_liang_barsky_f (Fin 5) (Fin 5) (Fin 5) (Fin 5) (Fin (- 5)) (Fin (- 5)) (Fin 5) (Fin 5)
       = Inr (True, Some ((Fin 5, Fin 5), (Fin 5, Fin 5)))"
proof -
  have d: "is_double 0" "is_double 3" "is_double 5" "is_double (3 - 0)" "is_double (5 - 0)"
    by (simp_all add: is_double_def round_double_numeral round_double_0)
  have w: "f_sub (Fin 5) (Fin (- 5)) \<noteq> PInf"
    by (simp add: f_sub_def round_double_numeral)
  have b1: "(- 5 :: real) \<le> 0 \<and> (0 :: real) \<le> 5 \<and> (- 5 :: real) \<le> 0 \<and> (0 :: real) \<le> 5"
    and b2: "(- 5 :: real) \<le> 3 \<and> (3 :: real) \<le> 5 \<and> (- 5 :: real) \<le> 5 \<and> (5 :: real) \<le> 5"
    by simp_all
  have z: "is_double (5 - 5)" by (simp add: is_double_def round_double_0)
  have b3: "(- 5 :: real) \<le> 5 \<and> (5 :: real) \<le> 5 \<and> (- 5 :: real) \<le> 5 \<and> (5 :: real) \<le> 5"
    by simp
  from lb_inside_double [OF d(1) d(1) d(2) d(3) b1 b2 w w] d(4) d(5)
       lb_inside_double [OF d(3) d(3) d(3) d(3) b3 b3 w w] z d w
  show ?thesis by simp
qed

end
